theory Spec2Isabelle
  imports Main "HOL-Library.Sublist"
begin

text \<open>
  A shallow embedding of \<open>scripts/generate_pr.py\<close>, the script that collects the
  commits, the changed files and the diffs between a base reference and the current
  branch and writes a prompt for a pull-request description to \<open>pr_prompt.txt\<close>.
  The definitions follow the source function by function; the surroundings (the
  version-control tool, the file system, the command line) are parameters.
\<close>

section \<open>Python strings\<close>

text \<open>
  A Python \<open>str\<close> is a sequence of Unicode code points; \<open>len\<close>, slicing,
  \<open>strip\<close> and \<open>splitlines\<close> all count code points. A string is therefore a list
  of code points (natural numbers), not a list of bytes. \<open>asc\<close> embeds an ASCII literal.
\<close>

type_synonym ustr = "nat list"

definition asc :: "string \<Rightarrow> ustr" where
  "asc s = map of_char s"

text \<open>
  \<open>str.isspace\<close> for one code point, the set that \<open>str.strip()\<close> without an argument
  removes: the ASCII white space \<open>\t \n \v \f \r\<close>, the separators FS GS RS US, the
  blank, NEL, the no-break space and the Unicode space separators.
\<close>

definition isspace :: "nat \<Rightarrow> bool" where
  "isspace c =
     ((9 \<le> c \<and> c \<le> 13) \<or> (28 \<le> c \<and> c \<le> 32) \<or> c = 133 \<or> c = 160 \<or> c = 5760 \<or>
      (8192 \<le> c \<and> c \<le> 8202) \<or> c = 8232 \<or> c = 8233 \<or> c = 8239 \<or> c = 8287 \<or>
      c = 12288)"

definition lstrip :: "ustr \<Rightarrow> ustr" where
  "lstrip s = dropWhile isspace s"

definition rstrip :: "ustr \<Rightarrow> ustr" where
  "rstrip s = rev (dropWhile isspace (rev s))"

definition strip :: "ustr \<Rightarrow> ustr" where
  "strip s = rstrip (lstrip s)"

text \<open>
  The line boundaries of \<open>str.splitlines()\<close>: \<open>\n \v \f \r\<close>, FS GS RS, NEL, LS and
  PS; a \<open>\r\<close> followed by \<open>\n\<close> is one boundary. The boundaries are not kept, and a
  string that ends in a boundary has no empty last line.
\<close>

definition is_linebreak :: "nat \<Rightarrow> bool" where
  "is_linebreak c =
     ((10 \<le> c \<and> c \<le> 13) \<or> (28 \<le> c \<and> c \<le> 30) \<or> c = 133 \<or> c = 8232 \<or> c = 8233)"

fun splitlines_from :: "ustr \<Rightarrow> ustr \<Rightarrow> ustr list" where
  "splitlines_from cur [] = (if cur = [] then [] else [cur])"
| "splitlines_from cur [c] =
     (if is_linebreak c then [cur] else [cur @ [c]])"
| "splitlines_from cur (c # d # cs) =
     (if c = 13 \<and> d = 10 then cur # splitlines_from [] cs
      else if is_linebreak c then cur # splitlines_from [] (d # cs)
      else splitlines_from (cur @ [c]) (d # cs))"

definition splitlines :: "ustr \<Rightarrow> ustr list" where
  "splitlines s = splitlines_from [] s"

text \<open>\<open>sep.join(xs)\<close>.\<close>

fun join :: "ustr \<Rightarrow> ustr list \<Rightarrow> ustr" where
  "join sep [] = []"
| "join sep [x] = x"
| "join sep (x # y # ys) = x @ sep @ join sep (y # ys)"

text \<open>
  The slice \<open>xs[:n]\<close> for any integer \<open>n\<close>: a negative \<open>n\<close> counts from the end.
\<close>

definition slice_to :: "int \<Rightarrow> 'a list \<Rightarrow> 'a list" where
  "slice_to n xs = (if n < 0 then take (length xs - nat (- n)) xs else take (nat n) xs)"

section \<open>The world outside the script\<close>

text \<open>
  What a library call can raise: \<open>subprocess.run\<close>, \<open>read_text\<close>, \<open>write_text\<close>
  and \<open>print\<close> raise an \<open>OSError\<close> (no executable, no permission, a directory) or
  a \<open>UnicodeError\<close> (text that does not decode or encode). The script catches
  nothing, so an error ends the run.
\<close>

datatype error = OSError | UnicodeError

text \<open>The \<open>CompletedProcess\<close> that \<open>subprocess.run\<close> returns, its streams decoded.\<close>

record completed_process =
  returncode :: int
  stdout :: ustr
  stderr :: ustr

text \<open>
  The surroundings that the run reads and never changes: the outcome of running a
  command (the three version-control subcommands only read the repository, so a
  command has one outcome during a run), the name of the resolved working directory,
  the fault, if any, that opening a path for writing raises (no permission, no
  parent directory), and the fault, if any, that printing a line raises (a standard
  output whose encoding lacks a character of the line).
\<close>

record env =
  proc :: "ustr list \<Rightarrow> error + completed_process"
  cwd_name :: ustr
  write_fault :: "ustr \<Rightarrow> error option"
  print_fault :: "ustr \<Rightarrow> error option"

text \<open>
  A path of the file system is absent, a text file, a directory, or a file that
  cannot be read as text (no permission, bytes that do not decode). Paths are the
  relative path strings that the script uses; links that make two paths one file are
  not modelled.
\<close>

datatype node = File ustr | Directory | Unreadable error

type_synonym file_system = "ustr \<Rightarrow> node option"

text \<open>
  What the run changes: the files, the commands executed so far (in order), and the
  lines printed.
\<close>

record state =
  files :: file_system
  calls :: "ustr list list"
  console :: "ustr list"

section \<open>The script\<close>

subsection \<open>Shell runner\<close>

text \<open>
  \<open>run\<close> captures both streams and returns the standard output, stripped. It never
  reads \<open>returncode\<close> or \<open>stderr\<close>.
\<close>

definition run :: "env \<Rightarrow> ustr list \<Rightarrow> state \<Rightarrow> error + (ustr \<times> state)" where
  "run e cmd s =
     (case proc e cmd of
        Inl x \<Rightarrow> Inl x
      | Inr cp \<Rightarrow> Inr (strip (stdout cp), s\<lparr>calls := calls s @ [cmd]\<rparr>))"

subsection \<open>Metadata collector\<close>

definition git_range :: "ustr \<Rightarrow> ustr \<Rightarrow> ustr" where
  "git_range base head = base @ asc ''..'' @ head"

definition current_branch :: "env \<Rightarrow> state \<Rightarrow> error + (ustr \<times> state)" where
  "current_branch e s =
     run e [asc ''git'', asc ''rev-parse'', asc ''--abbrev-ref'', asc ''HEAD''] s"

definition commits :: "env \<Rightarrow> ustr \<Rightarrow> ustr \<Rightarrow> state \<Rightarrow> error + (ustr \<times> state)" where
  "commits e base head s =
     run e [asc ''git'', asc ''log'', asc ''--pretty=format:- %s'', git_range base head] s"

definition changed_files :: "env \<Rightarrow> ustr \<Rightarrow> ustr \<Rightarrow> state \<Rightarrow> error + (ustr \<times> state)" where
  "changed_files e base head s =
     run e [asc ''git'', asc ''diff'', asc ''--name-status'', git_range base head] s"

text \<open>
  The block that \<open>patch_summary\<close> appends for a file \<open>f\<close> with diff \<open>p\<close>: a line
  break, the heading, a fence opened with three backquotes (code point 96) and the
  word diff, the first 1500 code points of \<open>p\<close>, and the closing fence.
\<close>

definition patch_block :: "ustr \<Rightarrow> ustr \<Rightarrow> ustr" where
  "patch_block f p =
     [10] @ asc ''### '' @ f @ [10] @ [96, 96, 96] @ asc ''diff'' @ [10] @ take 1500 p @
     [10] @ [96, 96, 96]"

text \<open>
  The loop of \<open>patch_summary\<close> over the selected paths: \<open>out\<close> is the list built so
  far. Each path costs one command; a path with an empty diff appends nothing.
\<close>

fun patch_loop ::
  "env \<Rightarrow> ustr \<Rightarrow> ustr \<Rightarrow> ustr list \<Rightarrow> ustr list \<Rightarrow> state \<Rightarrow> error + (ustr list \<times> state)" where
  "patch_loop e base head [] out s = Inr (out, s)"
| "patch_loop e base head (f # fs) out s =
     (case run e [asc ''git'', asc ''diff'', git_range base head, asc ''--'', f] s of
        Inl x \<Rightarrow> Inl x
      | Inr (p, s1) \<Rightarrow>
          patch_loop e base head fs (if p \<noteq> [] then out @ [patch_block f p] else out) s1)"

definition patch_summary ::
  "env \<Rightarrow> ustr \<Rightarrow> ustr \<Rightarrow> int \<Rightarrow> state \<Rightarrow> error + (ustr \<times> state)" where
  "patch_summary e base head limit s =
     (case run e [asc ''git'', asc ''diff'', asc ''--name-only'', git_range base head] s of
        Inl x \<Rightarrow> Inl x
      | Inr (listing, s1) \<Rightarrow>
          (case patch_loop e base head (slice_to limit (splitlines listing)) [] s1 of
             Inl x \<Rightarrow> Inl x
           | Inr (out, s2) \<Rightarrow> Inr (join [10] out, s2)))"

subsection \<open>Template loader\<close>

definition template_paths :: "ustr list" where
  "template_paths = [asc ''.pull_request_template.md'', asc ''.github/pull_request_template.md'']"

text \<open>The fallback: two lines of text with an empty line between them.\<close>

definition fallback_template :: ustr where
  "fallback_template = asc ''# Problema'' @ [10, 10] @ asc ''## Solu'' @ [231, 227] @ asc ''o'' @ [10]"

definition path_exists :: "state \<Rightarrow> ustr \<Rightarrow> bool" where
  "path_exists s f = (files s f \<noteq> None)"

definition read_text :: "state \<Rightarrow> ustr \<Rightarrow> error + ustr" where
  "read_text s f =
     (case files s f of
        None \<Rightarrow> Inl OSError
      | Some (File t) \<Rightarrow> Inr t
      | Some Directory \<Rightarrow> Inl OSError
      | Some (Unreadable x) \<Rightarrow> Inl x)"

fun read_template_from :: "ustr list \<Rightarrow> state \<Rightarrow> error + ustr" where
  "read_template_from [] s = Inr fallback_template"
| "read_template_from (f # fs) s =
     (if path_exists s f then read_text s f else read_template_from fs s)"

definition read_template :: "state \<Rightarrow> error + ustr" where
  "read_template s = read_template_from template_paths s"

subsection \<open>Prompt assembler\<close>

text \<open>
  The formatted string of \<open>main\<close>. The literal opens with a line break, holds the
  document \<open>prompt_body\<close> with the seven values put in, and closes with a line break;
  \<open>prompt_text\<close> is the literal stripped. The accented letters and the arrow are
  written as their code points.
\<close>

definition prompt_body :: "ustr \<Rightarrow> ustr \<Rightarrow> ustr \<Rightarrow> ustr \<Rightarrow> ustr \<Rightarrow> ustr \<Rightarrow> ustr \<Rightarrow> ustr" where
  "prompt_body template dir_name head base commits_txt files_txt patches_txt =
     asc ''Voc'' @ [234, 32, 233] @
     asc '' um engenheiro experiente escrevendo a descri'' @ [231, 227] @
     asc ''o de um Pull Request.'' @ [10, 10] @
     asc ''Preencha este **template de PR em portugu'' @ [234] @ asc ''s**:'' @ [10, 10] @
     asc ''---'' @ [10, 10] @
     template @ [10, 10] @
     asc ''---'' @ [10, 10] @
     asc ''Contexto:'' @ [10] @
     asc ''- Reposit'' @ [243] @ asc ''rio local: '' @ dir_name @ [10] @
     asc ''- Branch: '' @ [96] @ head @ [96, 32, 8592, 32, 96] @ base @ [96] @ [10, 10] @
     asc ''Commits:'' @ [10] @
     commits_txt @ [10, 10] @
     asc ''Arquivos alterados:'' @ [10] @
     files_txt @ [10, 10] @
     asc ''Patches (exemplo):'' @ [10] @
     patches_txt @ [10, 10] @
     asc ''---'' @ [10, 10] @
     asc ''**Responda com o template preenchido**, sem coment'' @ [225] @
     asc ''rios extras.''"

definition prompt_text :: "ustr \<Rightarrow> ustr \<Rightarrow> ustr \<Rightarrow> ustr \<Rightarrow> ustr \<Rightarrow> ustr \<Rightarrow> ustr \<Rightarrow> ustr" where
  "prompt_text template dir_name head base commits_txt files_txt patches_txt =
     strip ([10] @
            prompt_body template dir_name head base commits_txt files_txt patches_txt @
            [10])"

definition output_path :: ustr where
  "output_path = asc ''pr_prompt.txt''"

text \<open>
  UTF-8 encodes every code point of a Python string but the surrogates, U+D800 to
  U+DFFF (which reach a string through \<open>sys.argv\<close> or a directory name with bytes
  that did not decode).
\<close>

definition utf8_encodable :: "ustr \<Rightarrow> bool" where
  "utf8_encodable t = list_all (\<lambda>c. c < 55296 \<or> 57343 < c) t"

text \<open>
  \<open>Path(f).write_text(t, encoding="utf-8")\<close> opens the path for writing, which
  raises on a directory or where the surroundings say so and otherwise leaves an
  empty file; then the text is encoded, which raises on a surrogate with the file
  still empty; then the text is written. A run that ends in an error leaves the error
  and the file system behind. Faults of the device while the bytes are written are
  not modelled.
\<close>

definition write_text :: "env \<Rightarrow> ustr \<Rightarrow> ustr \<Rightarrow> state \<Rightarrow> (error \<times> file_system) + state" where
  "write_text e f t s =
     (if files s f = Some Directory then Inl (OSError, files s)
      else case write_fault e f of
        Some x \<Rightarrow> Inl (x, files s)
      | None \<Rightarrow>
          if utf8_encodable t then Inr (s\<lparr>files := (files s)(f \<mapsto> File t)\<rparr>)
          else Inl (UnicodeError, (files s)(f \<mapsto> File [])))"

text \<open>
  \<open>main\<close> up to the assembled prompt: the base reference from \<open>sys.argv\<close> (whose
  element 0 is the script), the four collection steps in the order of the source,
  the template, and the formatted string.
\<close>

definition assemble_prompt :: "env \<Rightarrow> ustr list \<Rightarrow> state \<Rightarrow> error + (ustr \<times> state)" where
  "assemble_prompt e argv s =
     (let base = (if length argv > 1 then argv ! 1 else asc ''main'') in
      case current_branch e s of
        Inl x \<Rightarrow> Inl x
      | Inr (head, s1) \<Rightarrow>
     (case commits e base head s1 of
        Inl x \<Rightarrow> Inl x
      | Inr (commits_txt, s2) \<Rightarrow>
     (case changed_files e base head s2 of
        Inl x \<Rightarrow> Inl x
      | Inr (files_txt, s3) \<Rightarrow>
     (case patch_summary e base head 10 s3 of
        Inl x \<Rightarrow> Inl x
      | Inr (patches_txt, s4) \<Rightarrow>
     (case read_template s4 of
        Inl x \<Rightarrow> Inl x
      | Inr template \<Rightarrow>
          Inr (prompt_text template (cwd_name e) head base commits_txt files_txt patches_txt,
               s4))))))"

text \<open>
  \<open>main\<close>: the prompt is written to the output file, then one line is printed. The
  collection steps change no file, so a run that fails before the write leaves the
  file system as it was; a run that fails at \<open>print\<close> has written the file.
\<close>

definition main :: "env \<Rightarrow> ustr list \<Rightarrow> state \<Rightarrow> (error \<times> file_system) + state" where
  "main e argv s =
     (case assemble_prompt e argv s of
        Inl x \<Rightarrow> Inl (x, files s)
      | Inr (prompt, s1) \<Rightarrow>
          (case write_text e output_path prompt s1 of
             Inl xf \<Rightarrow> Inl xf
           | Inr s2 \<Rightarrow>
               (case print_fault e ([9989] @ asc '' Prompt salvo em pr_prompt.txt'') of
                  Some x \<Rightarrow> Inl (x, files s2)
                | None \<Rightarrow>
                    Inr (s2\<lparr>console :=
                           console s2 @ [[9989] @ asc '' Prompt salvo em pr_prompt.txt'']\<rparr>))))"

section \<open>What the statements below speak about\<close>

text \<open>The five commands of a run, as the functions above spell them.\<close>

definition branch_cmd :: "ustr list" where
  "branch_cmd = [asc ''git'', asc ''rev-parse'', asc ''--abbrev-ref'', asc ''HEAD'']"

definition log_cmd :: "ustr \<Rightarrow> ustr \<Rightarrow> ustr list" where
  "log_cmd base head = [asc ''git'', asc ''log'', asc ''--pretty=format:- %s'', git_range base head]"

definition status_cmd :: "ustr \<Rightarrow> ustr \<Rightarrow> ustr list" where
  "status_cmd base head = [asc ''git'', asc ''diff'', asc ''--name-status'', git_range base head]"

definition names_cmd :: "ustr \<Rightarrow> ustr \<Rightarrow> ustr list" where
  "names_cmd base head = [asc ''git'', asc ''diff'', asc ''--name-only'', git_range base head]"

definition diff_cmd :: "ustr \<Rightarrow> ustr \<Rightarrow> ustr \<Rightarrow> ustr list" where
  "diff_cmd base head f = [asc ''git'', asc ''diff'', git_range base head, asc ''--'', f]"

text \<open>
  The value that \<open>run\<close> returns for a command, whatever the state: the stripped
  standard output (empty where the command cannot be started). \<open>listed_files\<close> are
  the changed paths as \<open>patch_summary\<close> reads them from the listing, \<open>diff_text\<close> is
  the diff that it reads for one path.
\<close>

definition run_text :: "env \<Rightarrow> ustr list \<Rightarrow> ustr" where
  "run_text e cmd = (case proc e cmd of Inl x \<Rightarrow> [] | Inr cp \<Rightarrow> strip (stdout cp))"

definition listed_files :: "env \<Rightarrow> ustr \<Rightarrow> ustr \<Rightarrow> ustr list" where
  "listed_files e base head = splitlines (run_text e (names_cmd base head))"

definition diff_text :: "env \<Rightarrow> ustr \<Rightarrow> ustr \<Rightarrow> ustr \<Rightarrow> ustr" where
  "diff_text e base head f = run_text e (diff_cmd base head f)"

text \<open>
  The selected paths that get a block, and the summary made of their blocks: what
  \<open>patch_summary\<close> returns for the limit 10 (\<open>patch_summary_Inr\<close> below).
\<close>

definition kept_files :: "env \<Rightarrow> ustr \<Rightarrow> ustr \<Rightarrow> ustr list" where
  "kept_files e base head =
     filter (\<lambda>f. diff_text e base head f \<noteq> []) (take 10 (listed_files e base head))"

definition summary_of :: "env \<Rightarrow> ustr \<Rightarrow> ustr \<Rightarrow> ustr list \<Rightarrow> ustr" where
  "summary_of e base head fs = join [10] (map (\<lambda>f. patch_block f (diff_text e base head f)) fs)"

text \<open>
  \<open>in_order ps s\<close>: the strings \<open>ps\<close> occur in \<open>s\<close> one after the other, each
  starting where the one before has ended or later. The search takes the first
  occurrence of each string in what is left; \<open>in_order_Cons_iff\<close> below shows that
  this finds occurrences in that order whenever there are any.
\<close>

fun in_order :: "'a list list \<Rightarrow> 'a list \<Rightarrow> bool" where
  "in_order [] s = True"
| "in_order (p # ps) [] = (p = [] \<and> in_order ps [])"
| "in_order (p # ps) (c # cs) =
     (if prefix p (c # cs) then in_order ps (drop (length p) (c # cs))
      else in_order (p # ps) cs)"

text \<open>
  The standard output of \<open>git log --pretty=format:- %s\<close> for commits with the
  subjects \<open>subs\<close>, in the order in which the tool lists them: one line per commit, a
  hyphen, a blank and the subject, with a line break between two entries and none
  after the last.
\<close>

definition git_log_stdout :: "ustr list \<Rightarrow> ustr" where
  "git_log_stdout subs = join [10] (map (\<lambda>sub. asc ''- '' @ sub) subs)"

subsection \<open>The example run of the specification\<close>

text \<open>
  Head \<open>feature-x\<close>, no argument (so the base is the default), the commits
  \<open>Fix bug\<close> and \<open>Add test\<close>, one changed file \<open>a.py\<close> whose diff has ten lines, and
  the first template file present.
\<close>

definition example_diff :: ustr where
  "example_diff =
     asc ''diff --git a/a.py b/a.py'' @ [10] @
     asc ''index 1111111..2222222 100644'' @ [10] @
     asc ''--- a/a.py'' @ [10] @
     asc ''+++ b/a.py'' @ [10] @
     asc ''@@ -1,5 +1,5 @@'' @ [10] @
     asc '' import sys'' @ [10] @
     asc '' '' @ [10] @
     asc ''-x = 1'' @ [10] @
     asc ''+x = 2'' @ [10] @
     asc '' print(x)'' @ [10]"

definition example_template :: ustr where
  "example_template = asc ''# Problema'' @ [10, 10] @ asc ''## Solu'' @ [231, 227] @ asc ''o'' @ [10]"

definition ok :: "ustr \<Rightarrow> error + completed_process" where
  "ok out = Inr \<lparr>returncode = 0, stdout = out, stderr = []\<rparr>"

definition example_proc :: "ustr list \<Rightarrow> error + completed_process" where
  "example_proc cmd =
     (if cmd = [asc ''git'', asc ''rev-parse'', asc ''--abbrev-ref'', asc ''HEAD'']
      then ok (asc ''feature-x'' @ [10])
      else if cmd = [asc ''git'', asc ''log'', asc ''--pretty=format:- %s'', asc ''main..feature-x'']
      then ok (asc ''- Fix bug'' @ [10] @ asc ''- Add test'')
      else if cmd = [asc ''git'', asc ''diff'', asc ''--name-status'', asc ''main..feature-x'']
      then ok (asc ''M'' @ [9] @ asc ''a.py'' @ [10])
      else if cmd = [asc ''git'', asc ''diff'', asc ''--name-only'', asc ''main..feature-x'']
      then ok (asc ''a.py'' @ [10])
      else if cmd = [asc ''git'', asc ''diff'', asc ''main..feature-x'', asc ''--'', asc ''a.py'']
      then ok example_diff
      else Inr \<lparr>returncode = 128, stdout = [], stderr = asc ''fatal: bad revision'' @ [10]\<rparr>)"

definition example_env :: env where
  "example_env =
     \<lparr>proc = example_proc, cwd_name = asc ''flutter_ort_plugin'', write_fault = (\<lambda>f. None),
      print_fault = (\<lambda>l. None)\<rparr>"

definition example_argv :: "ustr list" where
  "example_argv = [asc ''scripts/generate_pr.py'']"

definition example_state :: state where
  "example_state =
     \<lparr>files = [asc ''.pull_request_template.md'' \<mapsto> File example_template,
               asc ''pr_prompt.txt'' \<mapsto> File (asc ''an older prompt'')],
      calls = [], console = []\<rparr>"

definition example_calls :: "ustr list list" where
  "example_calls =
     [[asc ''git'', asc ''rev-parse'', asc ''--abbrev-ref'', asc ''HEAD''],
      [asc ''git'', asc ''log'', asc ''--pretty=format:- %s'', asc ''main..feature-x''],
      [asc ''git'', asc ''diff'', asc ''--name-status'', asc ''main..feature-x''],
      [asc ''git'', asc ''diff'', asc ''--name-only'', asc ''main..feature-x''],
      [asc ''git'', asc ''diff'', asc ''main..feature-x'', asc ''--'', asc ''a.py'']]"

text \<open>The prompt that the example run assembles, written out.\<close>

definition example_prompt :: ustr where
  "example_prompt =
     asc ''Voc'' @ [234, 32, 233] @
     asc '' um engenheiro experiente escrevendo a descri'' @ [231, 227] @
     asc ''o de um Pull Request.'' @ [10, 10] @
     asc ''Preencha este **template de PR em portugu'' @ [234] @ asc ''s**:'' @ [10, 10] @
     asc ''---'' @ [10, 10] @
     example_template @ [10, 10] @
     asc ''---'' @ [10, 10] @
     asc ''Contexto:'' @ [10] @
     asc ''- Reposit'' @ [243] @ asc ''rio local: flutter_ort_plugin'' @ [10] @
     asc ''- Branch: '' @ [96] @ asc ''feature-x'' @ [96, 32, 8592, 32, 96] @ asc ''main'' @
     [96, 10, 10] @
     asc ''Commits:'' @ [10] @
     asc ''- Fix bug'' @ [10] @
     asc ''- Add test'' @ [10, 10] @
     asc ''Arquivos alterados:'' @ [10] @
     asc ''M'' @ [9] @ asc ''a.py'' @ [10, 10] @
     asc ''Patches (exemplo):'' @ [10] @
     [10] @ asc ''### a.py'' @ [10] @
     [96, 96, 96] @ asc ''diff'' @ [10] @
     example_diff @
     [96, 96, 96] @ [10, 10] @
     asc ''---'' @ [10, 10] @
     asc ''**Responda com o template preenchido**, sem coment'' @ [225] @
     asc ''rios extras.''"

definition example_final :: state where
  "example_final =
     \<lparr>files = [asc ''.pull_request_template.md'' \<mapsto> File example_template,
               asc ''pr_prompt.txt'' \<mapsto> File example_prompt],
      calls = example_calls,
      console = [[9989] @ asc '' Prompt salvo em pr_prompt.txt'']\<rparr>"

text \<open>
  The example run for any diff \<open>d\<close> that the tool prints for \<open>a.py\<close>, and the prompt
  that it assembles: the document with the values of the example put in, where the
  patch summary is the one block of \<open>a.py\<close> (or nothing when \<open>d\<close> is white space
  only).
\<close>

definition example_env_with :: "ustr \<Rightarrow> env" where
  "example_env_with d =
     example_env\<lparr>proc := (\<lambda>cmd.
        if cmd = [asc ''git'', asc ''diff'', asc ''main..feature-x'', asc ''--'', asc ''a.py'']
        then ok d
        else example_proc cmd)\<rparr>"

definition example_prompt_with :: "ustr \<Rightarrow> ustr" where
  "example_prompt_with d =
     prompt_body example_template (asc ''flutter_ort_plugin'') (asc ''feature-x'') (asc ''main'')
       (asc ''- Fix bug'' @ [10] @ asc ''- Add test'')
       (asc ''M'' @ [9] @ asc ''a.py'')
       (if strip d = [] then [] else patch_block (asc ''a.py'') (strip d))"

subsection \<open>Further runs\<close>

text \<open>
  A repository without a commit: \<open>git rev-parse --abbrev-ref HEAD\<close> prints \<open>HEAD\<close>,
  reports the unknown revision on the standard error and exits with status 128.
\<close>

definition unborn_env :: env where
  "unborn_env =
     \<lparr>proc = (\<lambda>cmd.
        if cmd = [asc ''git'', asc ''rev-parse'', asc ''--abbrev-ref'', asc ''HEAD'']
        then Inr \<lparr>returncode = 128, stdout = asc ''HEAD'' @ [10],
                  stderr = asc ''fatal: ambiguous argument HEAD'' @ [10]\<rparr>
        else Inr \<lparr>returncode = 128, stdout = [], stderr = asc ''fatal: bad revision'' @ [10]\<rparr>),
      cwd_name = asc ''flutter_ort_plugin'', write_fault = (\<lambda>f. None),
      print_fault = (\<lambda>l. None)\<rparr>"

text \<open>The example with two commits of one subject, \<open>wip\<close>.\<close>

definition wip_env :: env where
  "wip_env =
     \<lparr>proc = (\<lambda>cmd.
        if cmd = [asc ''git'', asc ''log'', asc ''--pretty=format:- %s'', asc ''main..feature-x'']
        then ok (git_log_stdout [asc ''wip'', asc ''wip''])
        else example_proc cmd),
      cwd_name = asc ''flutter_ort_plugin'', write_fault = (\<lambda>f. None),
      print_fault = (\<lambda>l. None)\<rparr>"

text \<open>The example with a second listed path, \<open>b.py\<close>, whose diff is empty.\<close>

definition listing_env :: env where
  "listing_env =
     \<lparr>proc = (\<lambda>cmd.
        if cmd = [asc ''git'', asc ''diff'', asc ''--name-only'', asc ''main..feature-x'']
        then ok (asc ''a.py'' @ [10] @ asc ''b.py'' @ [10])
        else if cmd = [asc ''git'', asc ''diff'', asc ''main..feature-x'', asc ''--'', asc ''b.py'']
        then ok []
        else example_proc cmd),
      cwd_name = asc ''flutter_ort_plugin'', write_fault = (\<lambda>f. None),
      print_fault = (\<lambda>l. None)\<rparr>"

text \<open>
  A run with twelve changed paths, \<open>a\<close> to \<open>l\<close>, where every other command prints
  2000 plus signs (code point 43).
\<close>

definition many_env :: env where
  "many_env =
     \<lparr>proc = (\<lambda>cmd.
        if cmd = names_cmd (asc ''main'') (asc ''feature-x'')
        then ok (join [10] [asc ''a'', asc ''b'', asc ''c'', asc ''d'', asc ''e'', asc ''f'',
                            asc ''g'', asc ''h'', asc ''i'', asc ''j'', asc ''k'', asc ''l''])
        else ok (replicate 2000 43)),
      cwd_name = asc ''flutter_ort_plugin'', write_fault = (\<lambda>f. None),
      print_fault = (\<lambda>l. None)\<rparr>"

section \<open>Facts about the string operations\<close>

lemma isspace_newline: "isspace 10"
  by (simp add: isspace_def)

lemma rstrip_decomp: "t = rstrip t @ rev (takeWhile isspace (rev t))"
proof -
  have "rev (takeWhile isspace (rev t) @ dropWhile isspace (rev t)) = t" by simp
  then show ?thesis by (simp only: rev_append rstrip_def)
qed

lemma strip_eq_Nil_iff: "strip s = [] \<longleftrightarrow> (\<forall>c\<in>set s. isspace c)"
proof
  assume "strip s = []"
  then have all: "\<forall>c\<in>set (dropWhile isspace s). isspace c"
    by (simp add: strip_def lstrip_def rstrip_def)
  have "dropWhile isspace s = []"
  proof (rule ccontr)
    assume ne: "dropWhile isspace s \<noteq> []"
    then have "\<not> isspace (hd (dropWhile isspace s))" by (rule hd_dropWhile)
    moreover have "hd (dropWhile isspace s) \<in> set (dropWhile isspace s)"
      using ne by (rule hd_in_set)
    ultimately show False using all by blast
  qed
  then show "\<forall>c\<in>set s. isspace c" by simp
next
  assume "\<forall>c\<in>set s. isspace c"
  then show "strip s = []"
    by (auto simp: strip_def lstrip_def rstrip_def dest: set_dropWhileD)
qed

lemma rstrip_snoc: "\<not> isspace b \<Longrightarrow> rstrip (m @ [b]) = m @ [b]"
  by (simp add: rstrip_def)

lemma lstrip_Cons: "\<not> isspace a \<Longrightarrow> lstrip (a # m) = a # m"
  by (simp add: lstrip_def)

lemma strip_hd:
  assumes "strip s \<noteq> []"
  shows "\<not> isspace (hd (strip s))"
proof -
  let ?t = "lstrip s"
  have t: "?t = strip s @ rev (takeWhile isspace (rev ?t))"
    using rstrip_decomp [of ?t] by (simp add: strip_def)
  with assms have ne: "?t \<noteq> []" by auto
  have "hd ?t = hd (strip s)" using t assms by (metis hd_append2)
  moreover have "\<not> isspace (hd ?t)" using ne unfolding lstrip_def by (rule hd_dropWhile)
  ultimately show ?thesis by simp
qed

lemma strip_last:
  assumes "strip s \<noteq> []"
  shows "\<not> isspace (last (strip s))"
proof -
  have "dropWhile isspace (rev (lstrip s)) \<noteq> []"
    using assms by (simp add: strip_def rstrip_def)
  then have "\<not> isspace (hd (dropWhile isspace (rev (lstrip s))))" by (rule hd_dropWhile)
  moreover have "last (strip s) = hd (dropWhile isspace (rev (lstrip s)))"
    using assms by (simp add: strip_def rstrip_def last_rev)
  ultimately show ?thesis by simp
qed

lemma strip_id:
  assumes "s \<noteq> []" "\<not> isspace (hd s)" "\<not> isspace (last s)"
  shows "strip s = s"
proof -
  from assms(1) obtain a m where am: "s = a # m" by (cases s) auto
  from assms(1) obtain m' b where mb: "s = m' @ [b]" by (cases s rule: rev_cases) auto
  have "lstrip s = s" using assms(2) am by (simp add: lstrip_Cons)
  moreover have "rstrip s = s" using assms(3) mb by (simp add: rstrip_snoc)
  ultimately show ?thesis by (simp add: strip_def)
qed

lemma strip_wrapped:
  assumes "s \<noteq> []" "\<not> isspace (hd s)" "\<not> isspace (last s)"
  shows "strip ([10] @ s @ [10]) = s"
proof -
  have "lstrip ([10] @ s @ [10]) = s @ [10]"
    using assms(1,2) isspace_newline by (cases s) (simp_all add: lstrip_def)
  moreover have "rstrip (s @ [10]) = s"
    using assms(1,3) isspace_newline by (cases s rule: rev_cases) (simp_all add: rstrip_def)
  ultimately show ?thesis by (simp add: strip_def)
qed

subsection \<open>Joining and splitting lines\<close>

lemma join_hd: "ls \<noteq> [] \<Longrightarrow> hd ls \<noteq> [] \<Longrightarrow> hd (join sep ls) = hd (hd ls)"
proof (cases ls)
  case Nil
  assume "ls \<noteq> []"
  with Nil show ?thesis by simp
next
  case (Cons l ks)
  assume "hd ls \<noteq> []"
  with Cons show ?thesis by (cases ks) simp_all
qed

lemma join_last:
  "ls \<noteq> [] \<Longrightarrow> last ls \<noteq> [] \<Longrightarrow> join sep ls \<noteq> [] \<and> last (join sep ls) = last (last ls)"
  by (induction sep ls rule: join.induct) simp_all

lemma splitlines_samples:
  "splitlines [] = []"
  "splitlines [10] = [[]]"
  "splitlines (asc ''a'' @ [13, 10] @ asc ''b'' @ [10]) = [asc ''a'', asc ''b'']"
  "splitlines (asc ''a'' @ [10, 10] @ asc ''b'') = [asc ''a'', [], asc ''b'']"
  by (simp_all add: splitlines_def asc_def is_linebreak_def)

lemma splitlines_from_newline: "splitlines_from cur (10 # r) = cur # splitlines_from [] r"
  by (cases r) (simp_all add: is_linebreak_def)

lemma splitlines_from_plain:
  "\<forall>c\<in>set l. \<not> is_linebreak c \<Longrightarrow> splitlines_from cur (l @ r) = splitlines_from (cur @ l) r"
proof (induction l arbitrary: cur)
  case Nil
  then show ?case by simp
next
  case (Cons c l)
  then have c: "\<not> is_linebreak c" and l: "\<forall>c\<in>set l. \<not> is_linebreak c" by simp_all
  from c have c13: "c \<noteq> 13" by (auto simp: is_linebreak_def)
  show ?case
  proof (cases "l @ r")
    case Nil
    then show ?thesis using c by simp
  next
    case (Cons d ds)
    have "splitlines_from cur ((c # l) @ r) = splitlines_from cur (c # d # ds)"
      using Cons by simp
    also have "\<dots> = splitlines_from (cur @ [c]) (d # ds)" using c c13 by simp
    also have "\<dots> = splitlines_from (cur @ [c]) (l @ r)" using Cons by simp
    also have "\<dots> = splitlines_from ((cur @ [c]) @ l) r" using l by (rule Cons.IH)
    finally show ?thesis by simp
  qed
qed

lemma splitlines_join:
  assumes "\<forall>l\<in>set ls. l \<noteq> [] \<and> (\<forall>c\<in>set l. \<not> is_linebreak c)"
  shows "splitlines (join [10] ls) = ls"
  using assms
proof (induction ls)
  case Nil
  then show ?case by (simp add: splitlines_def)
next
  case (Cons l ls)
  then have l: "l \<noteq> []" "\<forall>c\<in>set l. \<not> is_linebreak c" by simp_all
  show ?case
  proof (cases ls)
    case Nil
    have "splitlines_from [] (l @ []) = splitlines_from ([] @ l) []"
      using l(2) by (rule splitlines_from_plain)
    with Nil l(1) show ?thesis by (simp add: splitlines_def)
  next
    case (Cons k ks)
    then have "join [10] (l # ls) = l @ 10 # join [10] ls" by simp
    moreover have "splitlines_from [] (l @ 10 # join [10] ls) =
        splitlines_from ([] @ l) (10 # join [10] ls)"
      using l(2) by (rule splitlines_from_plain)
    ultimately have "splitlines (join [10] (l # ls)) = l # splitlines (join [10] ls)"
      by (simp add: splitlines_def splitlines_from_newline)
    with Cons.IH Cons.prems show ?thesis by simp
  qed
qed

subsection \<open>Occurrences in order\<close>

lemma in_order_Cons_iff_aux:
  assumes mono: "\<And>x v. in_order ps v \<Longrightarrow> in_order ps (x @ v)"
  shows "in_order (p # ps) s \<longleftrightarrow> (\<exists>u v. s = u @ p @ v \<and> in_order ps v)"
proof (induction s)
  case Nil
  then show ?case by auto
next
  case (Cons c cs)
  show ?case
  proof (cases "prefix p (c # cs)")
    case True
    then have e: "c # cs = [] @ p @ drop (length p) (c # cs)"
      by (auto simp: prefix_def)
    show ?thesis
    proof
      assume "in_order (p # ps) (c # cs)"
      with True have "in_order ps (drop (length p) (c # cs))" by simp
      with e show "\<exists>u v. c # cs = u @ p @ v \<and> in_order ps v" by blast
    next
      assume "\<exists>u v. c # cs = u @ p @ v \<and> in_order ps v"
      then obtain u v where uv: "c # cs = u @ p @ v" "in_order ps v" by blast
      have "drop (length p) (c # cs) = (drop (length p) u @ drop (length p - length u) p) @ v"
        unfolding uv(1) by simp
      then have "in_order ps (drop (length p) (c # cs))"
        using mono [OF uv(2)] by (simp only:)
      with True show "in_order (p # ps) (c # cs)" by simp
    qed
  next
    case False
    show ?thesis
    proof
      assume "in_order (p # ps) (c # cs)"
      with False have "in_order (p # ps) cs" by simp
      with Cons.IH obtain u v where "cs = u @ p @ v" "in_order ps v" by blast
      then have "c # cs = (c # u) @ p @ v \<and> in_order ps v" by simp
      then show "\<exists>u v. c # cs = u @ p @ v \<and> in_order ps v" by blast
    next
      assume "\<exists>u v. c # cs = u @ p @ v \<and> in_order ps v"
      then obtain u v where uv: "c # cs = u @ p @ v" "in_order ps v" by blast
      have "u \<noteq> []"
      proof
        assume "u = []"
        with uv(1) have "prefix p (c # cs)" by (simp add: prefix_def)
        with False show False by simp
      qed
      then obtain u' where "u = c # u'" "cs = u' @ p @ v"
        using uv(1) by (cases u) auto
      with uv(2) Cons.IH have "in_order (p # ps) cs" by blast
      with False show "in_order (p # ps) (c # cs)" by simp
    qed
  qed
qed

lemma in_order_mono: "in_order ps v \<Longrightarrow> in_order ps (x @ v)"
proof (induction ps arbitrary: x v)
  case Nil
  then show ?case by simp
next
  case (Cons p ps)
  have iff: "\<And>s. in_order (p # ps) s \<longleftrightarrow> (\<exists>u v. s = u @ p @ v \<and> in_order ps v)"
    by (rule in_order_Cons_iff_aux) (rule Cons.IH)
  from Cons.prems obtain u w where "v = u @ p @ w" "in_order ps w"
    unfolding iff by blast
  then have "x @ v = (x @ u) @ p @ w \<and> in_order ps w" by simp
  then show ?case unfolding iff by blast
qed

lemma in_order_Cons_iff:
  "in_order (p # ps) s \<longleftrightarrow> (\<exists>u v. s = u @ p @ v \<and> in_order ps v)"
  by (rule in_order_Cons_iff_aux) (rule in_order_mono)

lemma in_order_match: "in_order ps v \<Longrightarrow> in_order (p # ps) (p @ v)"
  unfolding in_order_Cons_iff [of p ps] by (metis append_Nil)



lemma in_order_tail: "in_order (p # ps) s \<Longrightarrow> in_order ps s"
proof -
  assume "in_order (p # ps) s"
  then obtain u v where "s = (u @ p) @ v" "in_order ps v"
    unfolding in_order_Cons_iff by auto
  then show ?thesis using in_order_mono by blast
qed

lemma in_order_drop_second: "in_order (p # q # ps) s \<Longrightarrow> in_order (p # ps) s"
proof -
  assume "in_order (p # q # ps) s"
  then obtain u v where "s = u @ p @ v" "in_order (q # ps) v"
    unfolding in_order_Cons_iff [of p] by blast
  then have "s = u @ p @ v \<and> in_order ps v" by (simp add: in_order_tail)
  then show ?thesis unfolding in_order_Cons_iff [of p] by blast
qed

section \<open>What the functions return\<close>

lemma slice_to_10: "slice_to 10 xs = take 10 xs"
  by (simp add: slice_to_def)

lemma run_eq:
  "run e cmd s =
     (case proc e cmd of
        Inl x \<Rightarrow> Inl x
      | Inr cp \<Rightarrow> Inr (run_text e cmd, s\<lparr>calls := calls s @ [cmd]\<rparr>))"
  by (simp add: run_def run_text_def split: sum.splits)

lemma run_Inr:
  "run e cmd s = Inr (t, s') \<Longrightarrow> t = run_text e cmd \<and> s' = s\<lparr>calls := calls s @ [cmd]\<rparr>"
  by (auto simp: run_eq split: sum.splits)

lemma run_ok:
  "proc e cmd = Inr cp \<Longrightarrow> run e cmd s = Inr (run_text e cmd, s\<lparr>calls := calls s @ [cmd]\<rparr>)"
  by (simp add: run_eq)

lemma patch_loop_Inr:
  "patch_loop e base head fs out s = Inr (out', s') \<Longrightarrow>
     out' = out @ map (\<lambda>f. patch_block f (diff_text e base head f))
                    (filter (\<lambda>f. diff_text e base head f \<noteq> []) fs) \<and>
     s' = s\<lparr>calls := calls s @ map (diff_cmd base head) fs\<rparr>"
proof (induction fs arbitrary: out s)
  case Nil
  then show ?case by simp
next
  case (Cons f fs)
  from Cons.prems obtain p s1 where
    r: "run e (diff_cmd base head f) s = Inr (p, s1)" and
    l: "patch_loop e base head fs (if p \<noteq> [] then out @ [patch_block f p] else out) s1 =
          Inr (out', s')"
    by (auto simp: diff_cmd_def split: sum.splits)
  from run_Inr [OF r] have p: "p = diff_text e base head f"
    and s1: "s1 = s\<lparr>calls := calls s @ [diff_cmd base head f]\<rparr>"
    by (simp_all add: diff_text_def)
  from Cons.IH [OF l] show ?case by (simp add: p s1)
qed

lemma patch_loop_ok:
  "\<forall>f\<in>set fs. \<exists>cp. proc e (diff_cmd base head f) = Inr cp \<Longrightarrow>
   patch_loop e base head fs out s =
     Inr (out @ map (\<lambda>f. patch_block f (diff_text e base head f))
                  (filter (\<lambda>f. diff_text e base head f \<noteq> []) fs),
          s\<lparr>calls := calls s @ map (diff_cmd base head) fs\<rparr>)"
proof (induction fs arbitrary: out s)
  case Nil
  then show ?case by simp
next
  case (Cons f fs)
  then obtain cp where cp: "proc e (diff_cmd base head f) = Inr cp" by auto
  have r: "run e [asc ''git'', asc ''diff'', git_range base head, asc ''--'', f] s =
      Inr (diff_text e base head f, s\<lparr>calls := calls s @ [diff_cmd base head f]\<rparr>)"
    using run_ok [OF cp, of s] by (simp add: diff_text_def diff_cmd_def)
  from Cons.prems have "\<forall>f\<in>set fs. \<exists>cp. proc e (diff_cmd base head f) = Inr cp" by simp
  note ih = Cons.IH [OF this]
  show ?case by (simp add: r ih)
qed

lemma patch_summary_Inr:
  assumes "patch_summary e base head 10 s = Inr (txt, s')"
  shows "txt = summary_of e base head (kept_files e base head) \<and>
    s' = s\<lparr>calls := calls s @
            names_cmd base head # map (diff_cmd base head) (take 10 (listed_files e base head))\<rparr>"
proof -
  from assms obtain listing s1 out where
    r: "run e (names_cmd base head) s = Inr (listing, s1)" and
    l: "patch_loop e base head (take 10 (splitlines listing)) [] s1 = Inr (out, s')" and
    t: "txt = join [10] out"
    by (auto simp: patch_summary_def names_cmd_def slice_to_10 split: sum.splits)
  from run_Inr [OF r] have li: "splitlines listing = listed_files e base head"
    and s1: "s1 = s\<lparr>calls := calls s @ [names_cmd base head]\<rparr>"
    by (simp_all add: listed_files_def)
  from patch_loop_Inr [OF l] show ?thesis
    by (simp add: t li s1 summary_of_def kept_files_def)
qed

lemma patch_summary_ok:
  assumes "\<forall>cmd. \<exists>cp. proc e cmd = Inr cp"
  shows "patch_summary e base head 10 s =
    Inr (summary_of e base head (kept_files e base head),
         s\<lparr>calls := calls s @
            names_cmd base head # map (diff_cmd base head) (take 10 (listed_files e base head))\<rparr>)"
proof -
  from assms obtain cp where cp: "proc e (names_cmd base head) = Inr cp" by blast
  have r: "run e [asc ''git'', asc ''diff'', asc ''--name-only'', git_range base head] s =
      Inr (run_text e (names_cmd base head), s\<lparr>calls := calls s @ [names_cmd base head]\<rparr>)"
    using run_ok [OF cp, of s] by (simp add: names_cmd_def)
  have "\<forall>f\<in>set (take 10 (listed_files e base head)). \<exists>cp. proc e (diff_cmd base head f) = Inr cp"
    using assms by blast
  note l = patch_loop_ok [OF this]
  show ?thesis
    by (simp add: patch_summary_def r slice_to_10 l listed_files_def [symmetric]
        summary_of_def kept_files_def)
qed

lemma read_template_calls: "read_template (s\<lparr>calls := cs\<rparr>) = read_template s"
  by (simp add: read_template_def template_paths_def path_exists_def read_text_def)

lemma assemble_prompt_Inr:
  assumes "assemble_prompt e argv s = Inr (prompt, s')"
    and "base = (if length argv > 1 then argv ! 1 else asc ''main'')"
    and "head = run_text e branch_cmd"
  shows "\<exists>t. read_template s = Inr t \<and>
      prompt = prompt_text t (cwd_name e) head base (run_text e (log_cmd base head))
                 (run_text e (status_cmd base head))
                 (summary_of e base head (kept_files e base head))"
    and "s' = s\<lparr>calls := calls s @
            [branch_cmd, log_cmd base head, status_cmd base head, names_cmd base head] @
            map (diff_cmd base head) (take 10 (listed_files e base head))\<rparr>"
proof -
  from assms(1) obtain h s1 c s2 f s3 p s4 t where
    r1: "run e branch_cmd s = Inr (h, s1)" and
    r2: "run e (log_cmd base h) s1 = Inr (c, s2)" and
    r3: "run e (status_cmd base h) s2 = Inr (f, s3)" and
    r4: "patch_summary e base h 10 s3 = Inr (p, s4)" and
    r5: "read_template s4 = Inr t" and
    pr: "prompt = prompt_text t (cwd_name e) h base c f p" and
    s': "s' = s4"
    unfolding assemble_prompt_def current_branch_def commits_def changed_files_def
      branch_cmd_def log_cmd_def status_cmd_def assms(2) Let_def
    by (auto split: sum.splits)
  from run_Inr [OF r1] have h: "h = head" and s1: "s1 = s\<lparr>calls := calls s @ [branch_cmd]\<rparr>"
    by (simp_all add: assms(3))
  from run_Inr [OF r2] have c: "c = run_text e (log_cmd base head)"
    and s2: "s2 = s1\<lparr>calls := calls s1 @ [log_cmd base head]\<rparr>"
    by (simp_all add: h)
  from run_Inr [OF r3] have f: "f = run_text e (status_cmd base head)"
    and s3: "s3 = s2\<lparr>calls := calls s2 @ [status_cmd base head]\<rparr>"
    by (simp_all add: h)
  from patch_summary_Inr [OF r4] have p: "p = summary_of e base head (kept_files e base head)"
    and s4: "s4 = s3\<lparr>calls := calls s3 @
            names_cmd base head # map (diff_cmd base head) (take 10 (listed_files e base head))\<rparr>"
    by (simp_all add: h)
  show "s' = s\<lparr>calls := calls s @
            [branch_cmd, log_cmd base head, status_cmd base head, names_cmd base head] @
            map (diff_cmd base head) (take 10 (listed_files e base head))\<rparr>"
    by (simp add: s' s4 s3 s2 s1)
  have "read_template s = Inr t"
    using r5 by (simp add: s4 s3 s2 s1 read_template_calls)
  then show "\<exists>t. read_template s = Inr t \<and>
      prompt = prompt_text t (cwd_name e) head base (run_text e (log_cmd base head))
                 (run_text e (status_cmd base head))
                 (summary_of e base head (kept_files e base head))"
    by (simp add: pr h c f p)
qed

lemma assemble_prompt_ok:
  assumes "\<forall>cmd. \<exists>cp. proc e cmd = Inr cp"
    and "read_template s = Inr t"
    and "base = (if length argv > 1 then argv ! 1 else asc ''main'')"
    and "head = run_text e branch_cmd"
  shows "assemble_prompt e argv s =
    Inr (prompt_text t (cwd_name e) head base (run_text e (log_cmd base head))
           (run_text e (status_cmd base head))
           (summary_of e base head (kept_files e base head)),
         s\<lparr>calls := calls s @
            [branch_cmd, log_cmd base head, status_cmd base head, names_cmd base head] @
            map (diff_cmd base head) (take 10 (listed_files e base head))\<rparr>)"
proof -
  have run: "\<And>cmd s. run e cmd s = Inr (run_text e cmd, s\<lparr>calls := calls s @ [cmd]\<rparr>)"
    using assms(1) run_ok by blast
  have r1: "current_branch e s = Inr (head, s\<lparr>calls := calls s @ [branch_cmd]\<rparr>)"
    by (simp add: current_branch_def run assms(4) branch_cmd_def)
  have r2: "\<And>s. commits e base head s =
      Inr (run_text e (log_cmd base head), s\<lparr>calls := calls s @ [log_cmd base head]\<rparr>)"
    by (simp add: commits_def run log_cmd_def)
  have r3: "\<And>s. changed_files e base head s =
      Inr (run_text e (status_cmd base head), s\<lparr>calls := calls s @ [status_cmd base head]\<rparr>)"
    by (simp add: changed_files_def run status_cmd_def)
  note r4 = patch_summary_ok [OF assms(1)]
  show ?thesis
    unfolding assemble_prompt_def assms(3) [symmetric] Let_def
    by (simp add: r1 r2 r3 r4 read_template_calls assms(2))
qed

subsection \<open>The prompt\<close>

lemma prompt_body_hd:
  "prompt_body t n h b c f p \<noteq> [] \<and> hd (prompt_body t n h b c f p) = 86"
  by (simp add: prompt_body_def asc_def)

lemma prompt_body_last: "last (prompt_body t n h b c f p) = 46"
  by (simp add: prompt_body_def asc_def)

lemma prompt_text_eq: "prompt_text t n h b c f p = prompt_body t n h b c f p"
proof -
  let ?b = "prompt_body t n h b c f p"
  have "?b \<noteq> []" "\<not> isspace (hd ?b)" "\<not> isspace (last ?b)"
    by (simp_all add: prompt_body_hd prompt_body_last isspace_def)
  then show ?thesis unfolding prompt_text_def by (rule strip_wrapped)
qed

subsection \<open>The example run\<close>

lemma asc_eq_iff: "asc a = asc b \<longleftrightarrow> a = b"
proof -
  have "inj (of_char :: char \<Rightarrow> nat)" by (rule injI) simp
  then show ?thesis unfolding asc_def by (simp add: inj_map_eq_map)
qed

lemma example_completes: "\<forall>cmd. \<exists>cp. proc example_env cmd = Inr cp"
  by (simp add: example_env_def example_proc_def ok_def)

lemma example_head: "run_text example_env branch_cmd = asc ''feature-x''"
  by (simp add: run_text_def example_env_def example_proc_def ok_def branch_cmd_def)
     (simp add: asc_def strip_def lstrip_def rstrip_def isspace_def)

lemma example_range: "git_range (asc ''main'') (asc ''feature-x'') = asc ''main..feature-x''"
  by (simp add: git_range_def asc_def)

lemma example_log:
  "run_text example_env (log_cmd (asc ''main'') (asc ''feature-x'')) =
     asc ''- Fix bug'' @ [10] @ asc ''- Add test''"
  by (simp add: run_text_def example_env_def example_proc_def ok_def log_cmd_def example_range)
     (simp add: asc_def strip_def lstrip_def rstrip_def isspace_def)

lemma example_status:
  "run_text example_env (status_cmd (asc ''main'') (asc ''feature-x'')) =
     asc ''M'' @ [9] @ asc ''a.py''"
  by (simp add: run_text_def example_env_def example_proc_def ok_def status_cmd_def example_range)
     (simp add: asc_def strip_def lstrip_def rstrip_def isspace_def)

lemma example_listed: "listed_files example_env (asc ''main'') (asc ''feature-x'') = [asc ''a.py'']"
  by (simp add: listed_files_def run_text_def example_env_def example_proc_def ok_def
      names_cmd_def example_range)
     (simp add: asc_def strip_def lstrip_def rstrip_def isspace_def splitlines_def
      is_linebreak_def)

lemma example_diff_text:
  "diff_text example_env (asc ''main'') (asc ''feature-x'') (asc ''a.py'') = strip example_diff"
  by (simp add: diff_text_def run_text_def example_env_def example_proc_def ok_def
      diff_cmd_def example_range)

lemma strip_example_diff:
  "strip example_diff @ [10] = example_diff \<and> strip example_diff \<noteq> [] \<and>
   take 1500 (strip example_diff) = strip example_diff"
  by (simp add: example_diff_def asc_def strip_def lstrip_def rstrip_def isspace_def)


lemma example_kept: "kept_files example_env (asc ''main'') (asc ''feature-x'') = [asc ''a.py'']"
  by (simp add: kept_files_def example_listed example_diff_text strip_example_diff)

lemma example_summary:
  "summary_of example_env (asc ''main'') (asc ''feature-x'') [asc ''a.py''] =
     [10] @ asc ''### a.py'' @ [10] @ [96, 96, 96] @ asc ''diff'' @ [10] @ example_diff @
     [96, 96, 96]"
proof -
  have "patch_block (asc ''a.py'') (strip example_diff) =
      [10] @ asc ''### '' @ asc ''a.py'' @ [10] @ [96, 96, 96] @ asc ''diff'' @ [10] @
      (strip example_diff @ [10]) @ [96, 96, 96]"
    by (simp add: patch_block_def strip_example_diff)
  also have "\<dots> = [10] @ asc ''### a.py'' @ [10] @ [96, 96, 96] @ asc ''diff'' @ [10] @
      example_diff @ [96, 96, 96]"
    by (simp add: strip_example_diff) (simp add: asc_def)
  finally show ?thesis by (simp add: summary_of_def example_diff_text)
qed

lemma example_template_read: "read_template example_state = Inr example_template"
  by (simp add: read_template_def template_paths_def path_exists_def read_text_def
      example_state_def asc_eq_iff)

lemma example_prompt_eq:
  "prompt_text example_template (asc ''flutter_ort_plugin'') (asc ''feature-x'') (asc ''main'')
     (asc ''- Fix bug'' @ [10] @ asc ''- Add test'') (asc ''M'' @ [9] @ asc ''a.py'')
     ([10] @ asc ''### a.py'' @ [10] @ [96, 96, 96] @ asc ''diff'' @ [10] @ example_diff @
      [96, 96, 96]) = example_prompt"
  by (simp add: prompt_text_eq prompt_body_def example_prompt_def) (simp add: asc_def)

lemma example_assemble_from:
  assumes "read_template s = Inr example_template"
  shows "assemble_prompt example_env example_argv s =
     Inr (example_prompt, s\<lparr>calls := calls s @ example_calls\<rparr>)"
proof -
  have base: "asc ''main'' = (if length example_argv > 1 then example_argv ! 1 else asc ''main'')"
    by (simp add: example_argv_def)
  have head: "asc ''feature-x'' = run_text example_env branch_cmd"
    by (simp add: example_head)
  have calls: "[branch_cmd, log_cmd (asc ''main'') (asc ''feature-x''),
       status_cmd (asc ''main'') (asc ''feature-x''),
       names_cmd (asc ''main'') (asc ''feature-x'')] @
      map (diff_cmd (asc ''main'') (asc ''feature-x''))
        (take 10 (listed_files example_env (asc ''main'') (asc ''feature-x''))) = example_calls"
    by (simp add: example_listed example_calls_def branch_cmd_def
        log_cmd_def status_cmd_def names_cmd_def diff_cmd_def example_range)
  have dir: "cwd_name example_env = asc ''flutter_ort_plugin''"
    by (simp add: example_env_def)
  show ?thesis
    unfolding assemble_prompt_ok [OF example_completes assms base head]
      calls example_log example_status example_kept example_summary dir example_prompt_eq
    by (rule refl)
qed

lemma example_assemble:
  "assemble_prompt example_env example_argv example_state =
     Inr (example_prompt, example_state\<lparr>calls := example_calls\<rparr>)"
proof -
  have "calls example_state = []" by (simp add: example_state_def)
  with example_assemble_from [OF example_template_read] show ?thesis by simp
qed

lemma utf8_encodable_append:
  "utf8_encodable (a @ b) \<longleftrightarrow> utf8_encodable a \<and> utf8_encodable b"
  by (simp add: utf8_encodable_def)

lemma utf8_encodable_Cons:
  "utf8_encodable (c # b) \<longleftrightarrow> (c < 55296 \<or> 57343 < c) \<and> utf8_encodable b"
  by (simp add: utf8_encodable_def)

lemma utf8_encodable_Nil: "utf8_encodable []"
  by (simp add: utf8_encodable_def)

lemma utf8_encodable_asc: "utf8_encodable (asc s)"
proof -
  have "of_char c < (55296 :: nat)" for c
    by (rule less_trans [OF nat_of_char_less_256]) simp
  then show ?thesis by (simp add: utf8_encodable_def asc_def list_all_iff)
qed

lemma example_prompt_encodable: "utf8_encodable example_prompt"
  unfolding example_prompt_def example_diff_def example_template_def
  by (simp only: utf8_encodable_append utf8_encodable_asc utf8_encodable_Cons
      utf8_encodable_Nil simp_thms) simp

lemma example_main_from:
  assumes "read_template s = Inr example_template"
    and "files s output_path \<noteq> Some Directory"
  shows "main example_env example_argv s =
     Inr (s\<lparr>files := (files s)(output_path \<mapsto> File example_prompt),
            calls := calls s @ example_calls,
            console := console s @ [[9989] @ asc '' Prompt salvo em pr_prompt.txt'']\<rparr>)"
proof -
  have "write_fault example_env output_path = None"
    "print_fault example_env ([9989] @ asc '' Prompt salvo em pr_prompt.txt'') = None"
    by (simp_all add: example_env_def)
  then show ?thesis
    using assms(2)
    by (simp add: main_def example_assemble_from [OF assms(1)] write_text_def
        example_prompt_encodable)
qed

lemma example_main: "main example_env example_argv example_state = Inr example_final"
proof -
  have "files example_state output_path \<noteq> Some Directory"
    by (simp add: example_state_def output_path_def)
  from example_main_from [OF example_template_read this] show ?thesis
    by (simp add: output_path_def example_final_def example_state_def)
qed

lemma example_main_again:
  "main example_env example_argv example_final =
     Inr (example_final\<lparr>calls := example_calls @ example_calls,
            console := [[9989] @ asc '' Prompt salvo em pr_prompt.txt'',
                        [9989] @ asc '' Prompt salvo em pr_prompt.txt'']\<rparr>)"
proof -
  have "read_template example_final = Inr example_template"
    by (simp add: read_template_def template_paths_def path_exists_def read_text_def
        example_final_def asc_eq_iff)
  moreover have "files example_final output_path \<noteq> Some Directory"
    by (simp add: example_final_def output_path_def)
  ultimately show ?thesis
    using example_main_from [of example_final]
    by (simp add: output_path_def example_final_def)
qed

subsection \<open>The example run for any diff of the changed file\<close>

lemma example_with_proc:
  "length cmd \<noteq> 5 \<Longrightarrow> proc (example_env_with d) cmd = proc example_env cmd"
  "proc (example_env_with d) (diff_cmd (asc ''main'') (asc ''feature-x'') (asc ''a.py'')) = ok d"
  by (auto simp: example_env_with_def example_env_def diff_cmd_def example_range)

lemma example_with_run_text:
  "length cmd \<noteq> 5 \<Longrightarrow> run_text (example_env_with d) cmd = run_text example_env cmd"
  by (simp add: run_text_def example_with_proc)

lemma example_with_completes: "\<forall>cmd. \<exists>cp. proc (example_env_with d) cmd = Inr cp"
  using example_completes by (simp add: example_env_with_def example_env_def ok_def)

lemma example_with_listed:
  "listed_files (example_env_with d) (asc ''main'') (asc ''feature-x'') = [asc ''a.py'']"
proof -
  have "run_text (example_env_with d) (names_cmd (asc ''main'') (asc ''feature-x'')) =
      run_text example_env (names_cmd (asc ''main'') (asc ''feature-x''))"
    by (rule example_with_run_text) (simp add: names_cmd_def)
  then show ?thesis using example_listed by (simp add: listed_files_def)
qed

lemma example_with_diff_text:
  "diff_text (example_env_with d) (asc ''main'') (asc ''feature-x'') (asc ''a.py'') = strip d"
  by (simp add: diff_text_def run_text_def example_with_proc ok_def)

lemma example_with_summary:
  "summary_of (example_env_with d) (asc ''main'') (asc ''feature-x'')
     (kept_files (example_env_with d) (asc ''main'') (asc ''feature-x'')) =
   (if strip d = [] then [] else patch_block (asc ''a.py'') (strip d))"
  by (simp add: summary_of_def kept_files_def example_with_listed example_with_diff_text)

lemma example_with_assemble:
  assumes "read_template s = Inr example_template"
  shows "assemble_prompt (example_env_with d) example_argv s =
     Inr (example_prompt_with d, s\<lparr>calls := calls s @ example_calls\<rparr>)"
proof -
  have base: "asc ''main'' = (if length example_argv > 1 then example_argv ! 1 else asc ''main'')"
    by (simp add: example_argv_def)
  have "run_text (example_env_with d) branch_cmd = run_text example_env branch_cmd"
    by (rule example_with_run_text) (simp add: branch_cmd_def)
  then have head: "asc ''feature-x'' = run_text (example_env_with d) branch_cmd"
    by (simp add: example_head)
  have "run_text (example_env_with d) (log_cmd (asc ''main'') (asc ''feature-x'')) =
      run_text example_env (log_cmd (asc ''main'') (asc ''feature-x''))"
    by (rule example_with_run_text) (simp add: log_cmd_def)
  then have log: "run_text (example_env_with d) (log_cmd (asc ''main'') (asc ''feature-x'')) =
      asc ''- Fix bug'' @ [10] @ asc ''- Add test''"
    by (simp add: example_log)
  have "run_text (example_env_with d) (status_cmd (asc ''main'') (asc ''feature-x'')) =
      run_text example_env (status_cmd (asc ''main'') (asc ''feature-x''))"
    by (rule example_with_run_text) (simp add: status_cmd_def)
  then have status:
    "run_text (example_env_with d) (status_cmd (asc ''main'') (asc ''feature-x'')) =
      asc ''M'' @ [9] @ asc ''a.py''"
    by (simp add: example_status)
  have calls: "[branch_cmd, log_cmd (asc ''main'') (asc ''feature-x''),
       status_cmd (asc ''main'') (asc ''feature-x''),
       names_cmd (asc ''main'') (asc ''feature-x'')] @
      map (diff_cmd (asc ''main'') (asc ''feature-x''))
        (take 10 (listed_files (example_env_with d) (asc ''main'') (asc ''feature-x''))) =
      example_calls"
    by (simp add: example_with_listed example_calls_def branch_cmd_def
        log_cmd_def status_cmd_def names_cmd_def diff_cmd_def example_range)
  have dir: "cwd_name (example_env_with d) = asc ''flutter_ort_plugin''"
    by (simp add: example_env_with_def example_env_def)
  show ?thesis
    unfolding assemble_prompt_ok [OF example_with_completes assms base head]
      calls log status example_with_summary dir prompt_text_eq example_prompt_with_def
    by (rule refl)
qed

lemma example_with_env: "example_env_with example_diff = example_env"
proof -
  let ?c = "[asc ''git'', asc ''diff'', asc ''main..feature-x'', asc ''--'', asc ''a.py'']"
  have c: "example_proc ?c = ok example_diff"
    by (simp add: example_proc_def)
  have "(if cmd = ?c then ok example_diff else example_proc cmd) = example_proc cmd" for cmd
  proof (cases "cmd = ?c")
    case True
    then show ?thesis using c by simp
  next
    case False
    then show ?thesis by simp
  qed
  then have "(\<lambda>cmd. if cmd = ?c then ok example_diff else example_proc cmd) = example_proc"
    by (rule ext)
  then show ?thesis
    by (simp add: example_env_with_def example_env_def)
qed

lemma example_with_prompt: "example_prompt_with example_diff = example_prompt"
proof -
  have ne: "strip example_diff \<noteq> []" by (simp add: strip_example_diff)
  have "summary_of example_env (asc ''main'') (asc ''feature-x'') [asc ''a.py''] =
      patch_block (asc ''a.py'') (strip example_diff)"
    by (simp add: summary_of_def example_diff_text)
  then have s: "patch_block (asc ''a.py'') (strip example_diff) =
      [10] @ asc ''### a.py'' @ [10] @ [96, 96, 96] @ asc ''diff'' @ [10] @ example_diff @
      [96, 96, 96]"
    by (simp only: example_summary)
  show ?thesis
    unfolding example_prompt_with_def if_not_P [OF ne] s prompt_text_eq [symmetric]
    by (rule example_prompt_eq)
qed


section \<open>The claims\<close>

subsection \<open>C2: the shell runner and the exit status\<close>

lemma unborn_branch:
  "proc unborn_env branch_cmd =
     Inr \<lparr>returncode = 128, stdout = asc ''HEAD'' @ [10],
          stderr = asc ''fatal: ambiguous argument HEAD'' @ [10]\<rparr>"
  by (simp add: unborn_env_def branch_cmd_def)

lemma strip_HEAD: "strip (asc ''HEAD'' @ [10]) = asc ''HEAD''"
  by (simp add: asc_def strip_def lstrip_def rstrip_def isspace_def)

text \<open>
  C2, as the code has it. For every command that runs to its end, whatever its exit
  status, \<open>run\<close> returns the standard output of the command with the white space at
  both ends removed (and records the command). The result is the empty string exactly
  when the command wrote nothing but white space to its standard output; the exit
  status has no part in it.
\<close>

theorem run_returns_stripped_stdout:
  assumes "proc e cmd = Inr cp"
  shows "run e cmd s = Inr (strip (stdout cp), s\<lparr>calls := calls s @ [cmd]\<rparr>) \<and>
         (strip (stdout cp) = [] \<longleftrightarrow> (\<forall>c\<in>set (stdout cp). isspace c))"
  using assms by (simp add: run_def strip_eq_Nil_iff)

theorem run_returns_stripped_stdout_witness:
  "proc unborn_env branch_cmd =
     Inr \<lparr>returncode = 128, stdout = asc ''HEAD'' @ [10],
          stderr = asc ''fatal: ambiguous argument HEAD'' @ [10]\<rparr> \<and>
   run unborn_env branch_cmd example_state =
     Inr (asc ''HEAD'', example_state\<lparr>calls := calls example_state @ [branch_cmd]\<rparr>)"
  using run_returns_stripped_stdout [OF unborn_branch, of example_state]
  by (simp add: unborn_branch strip_HEAD)

text \<open>
  C2 as stated fails: in a repository without a commit the command of
  \<open>current_branch\<close> exits with status 128, and \<open>run\<close> returns \<open>HEAD\<close>, not the
  empty string.
\<close>

theorem run_nonzero_exit_counterexample:
  "proc unborn_env branch_cmd =
     Inr \<lparr>returncode = 128, stdout = asc ''HEAD'' @ [10],
          stderr = asc ''fatal: ambiguous argument HEAD'' @ [10]\<rparr> \<and>
   (128 :: int) \<noteq> 0 \<and>
   run unborn_env branch_cmd example_state \<noteq>
     Inr ([], example_state\<lparr>calls := calls example_state @ [branch_cmd]\<rparr>) \<and>
   run unborn_env branch_cmd example_state =
     Inr (asc ''HEAD'', example_state\<lparr>calls := calls example_state @ [branch_cmd]\<rparr>) \<and>
   asc ''HEAD'' \<noteq> []"
  by (simp add: run_def unborn_branch strip_HEAD) (simp add: asc_def)

subsection \<open>C3: the example run\<close>

lemma in_order_empty: "in_order ([] # ps) s = in_order ps s"
  by (cases s) simp_all

lemma example_with_order:
  "in_order [example_template, asc ''- Fix bug'', asc ''- Add test'', asc ''a.py'',
     take 1500 (strip d)] (example_prompt_with d)"
proof (cases "strip d = []")
  case True
  have "in_order [example_template, asc ''- Fix bug'', asc ''- Add test'', asc ''a.py'', []]
      (prompt_body example_template (asc ''flutter_ort_plugin'') (asc ''feature-x'')
        (asc ''main'') (asc ''- Fix bug'' @ [10] @ asc ''- Add test'')
        (asc ''M'' @ [9] @ asc ''a.py'') [])"
    unfolding prompt_body_def append_assoc
    by ((rule in_order_match | rule in_order_mono)+) (simp add: in_order_empty)
  with True show ?thesis by (simp add: example_prompt_with_def)
next
  case False
  have "in_order [example_template, asc ''- Fix bug'', asc ''- Add test'', asc ''a.py'',
      take 1500 (strip d)]
      (prompt_body example_template (asc ''flutter_ort_plugin'') (asc ''feature-x'')
        (asc ''main'') (asc ''- Fix bug'' @ [10] @ asc ''- Add test'')
        (asc ''M'' @ [9] @ asc ''a.py'') (patch_block (asc ''a.py'') (strip d)))"
    unfolding prompt_body_def patch_block_def append_assoc
    by ((rule in_order_match | rule in_order_mono)+) simp
  with False show ?thesis by (simp add: example_prompt_with_def)
qed

lemma example_with_order_whole:
  assumes "strip d \<noteq> []" "length (strip d) \<le> 1500" "strip d @ [10] = d"
  shows "in_order [example_template, asc ''- Fix bug'', asc ''- Add test'', asc ''a.py'', d]
    (example_prompt_with d)"
proof -
  have "d @ x = strip d @ [10] @ x" for x
    using assms(3) by (metis append_assoc)
  then have block: "patch_block (asc ''a.py'') (strip d) =
      [10] @ asc ''### '' @ asc ''a.py'' @ [10] @ [96, 96, 96] @ asc ''diff'' @ [10] @ d @
      [96, 96, 96]"
    using assms(2) by (simp add: patch_block_def)
  have "in_order [example_template, asc ''- Fix bug'', asc ''- Add test'', asc ''a.py'', d]
      (prompt_body example_template (asc ''flutter_ort_plugin'') (asc ''feature-x'')
        (asc ''main'') (asc ''- Fix bug'' @ [10] @ asc ''- Add test'')
        (asc ''M'' @ [9] @ asc ''a.py'')
        ([10] @ asc ''### '' @ asc ''a.py'' @ [10] @ [96, 96, 96] @ asc ''diff'' @ [10] @ d @
         [96, 96, 96]))"
    unfolding prompt_body_def append_assoc
    by ((rule in_order_match | rule in_order_mono)+) simp
  with assms(1) show ?thesis by (simp only: example_prompt_with_def block if_False)
qed

text \<open>
  C3, as the code has it. In the example run (base \<open>main\<close> by default, head
  \<open>feature-x\<close>, the commits \<open>Fix bug\<close> and \<open>Add test\<close>, the changed file \<open>a.py\<close>, the
  template file present), whatever diff \<open>d\<close> the tool prints for \<open>a.py\<close>, the
  assembled prompt is the document with these values put in, and it holds the
  template content, \<open>- Fix bug\<close>, \<open>- Add test\<close>, \<open>a.py\<close> and the diff text, one after
  the other in this order: the template comes first, not last. The diff text in the
  prompt is \<open>d\<close> without the white space at its two ends, cut to its first 1500
  characters. It is the full diff text, the last line break included, when \<open>d\<close> has
  no other white space at its ends than that one line break and at most 1500
  characters before it.
\<close>

theorem example_prompt_order:
  "assemble_prompt (example_env_with d) example_argv example_state =
     Inr (example_prompt_with d, example_state\<lparr>calls := example_calls\<rparr>) \<and>
   in_order [example_template, asc ''- Fix bug'', asc ''- Add test'', asc ''a.py'',
     take 1500 (strip d)] (example_prompt_with d) \<and>
   (strip d \<noteq> [] \<and> length (strip d) \<le> 1500 \<and> strip d @ [10] = d \<longrightarrow>
      in_order [example_template, asc ''- Fix bug'', asc ''- Add test'', asc ''a.py'', d]
        (example_prompt_with d))"
proof -
  have "calls example_state = []" by (simp add: example_state_def)
  with example_with_assemble [OF example_template_read, of d] example_with_order [of d]
    example_with_order_whole [of d]
  show ?thesis by simp
qed

text \<open>
  The instance for the diff of ten lines: the prompt is \<open>example_prompt\<close>, written
  out above, and the diff text in it is the whole diff, its last line break included.
\<close>

theorem example_prompt_order_witness:
  "strip example_diff \<noteq> [] \<and> length (strip example_diff) \<le> 1500 \<and>
   strip example_diff @ [10] = example_diff \<and>
   assemble_prompt example_env example_argv example_state =
     Inr (example_prompt, example_state\<lparr>calls := example_calls\<rparr>) \<and>
   in_order [example_template, asc ''- Fix bug'', asc ''- Add test'', asc ''a.py'',
     strip example_diff] example_prompt \<and>
   in_order [example_template, asc ''- Fix bug'', asc ''- Add test'', asc ''a.py'', example_diff]
     example_prompt"
proof -
  have len: "length (strip example_diff) \<le> 1500"
    by (simp add: example_diff_def asc_def strip_def lstrip_def rstrip_def isspace_def)
  note d = strip_example_diff
  from example_prompt_order [of example_diff]
  have "assemble_prompt example_env example_argv example_state =
      Inr (example_prompt, example_state\<lparr>calls := example_calls\<rparr>)"
    and "in_order [example_template, asc ''- Fix bug'', asc ''- Add test'', asc ''a.py'',
      strip example_diff] example_prompt"
    and "in_order [example_template, asc ''- Fix bug'', asc ''- Add test'', asc ''a.py'',
      example_diff] example_prompt"
    using len d by (simp_all add: example_with_env example_with_prompt)
  with len d show ?thesis by simp
qed

text \<open>
  C3 as stated fails: in the prompt of the example run the five strings do not occur
  in the order \<open>- Fix bug\<close>, \<open>- Add test\<close>, \<open>a.py\<close>, diff text, template content. The
  template content occurs once, before the commit list, and nowhere after
  \<open>- Fix bug\<close>.
\<close>

theorem example_prompt_order_counterexample:
  "assemble_prompt example_env example_argv example_state =
     Inr (example_prompt, example_state\<lparr>calls := example_calls\<rparr>) \<and>
   \<not> in_order [asc ''- Fix bug'', asc ''- Add test'', asc ''a.py'', example_diff, example_template]
     example_prompt \<and>
   \<not> in_order [asc ''- Fix bug'', asc ''- Add test'', asc ''a.py'', strip example_diff,
     example_template] example_prompt \<and>
   \<not> in_order [asc ''- Fix bug'', example_template] example_prompt"
proof -
  have no: "\<not> in_order [asc ''- Fix bug'', example_template] example_prompt"
    by (simp add: example_prompt_def example_diff_def example_template_def asc_def)
  have "in_order [asc ''- Fix bug'', example_template] example_prompt"
    if "in_order [asc ''- Fix bug'', asc ''- Add test'', asc ''a.py'', x,
      example_template] example_prompt" for x
    by (rule that [THEN in_order_drop_second, THEN in_order_drop_second,
          THEN in_order_drop_second])
  with no show ?thesis using example_assemble by blast
qed

subsection \<open>C1 and C4: the patch summary\<close>

lemma many_completes: "\<forall>cmd. \<exists>cp. proc many_env cmd = Inr cp"
  by (simp add: many_env_def ok_def)

lemma many_listed:
  "take 10 (listed_files many_env (asc ''main'') (asc ''feature-x'')) =
     [asc ''a'', asc ''b'', asc ''c'', asc ''d'', asc ''e'', asc ''f'', asc ''g'', asc ''h'',
      asc ''i'', asc ''j'']"
  by (simp add: listed_files_def run_text_def many_env_def ok_def)
     (simp add: asc_def strip_def lstrip_def rstrip_def isspace_def splitlines_def
      is_linebreak_def)

lemma strip_plus: "strip (replicate 2000 43) = replicate 2000 43"
  by (rule strip_id) (simp_all add: isspace_def last_replicate)

lemma many_diff:
  "diff_text many_env (asc ''main'') (asc ''feature-x'') f = replicate 2000 43"
  by (simp add: diff_text_def run_text_def many_env_def ok_def diff_cmd_def names_cmd_def
      strip_plus)

lemma many_kept:
  "kept_files many_env (asc ''main'') (asc ''feature-x'') =
     [asc ''a'', asc ''b'', asc ''c'', asc ''d'', asc ''e'', asc ''f'', asc ''g'', asc ''h'',
      asc ''i'', asc ''j'']"
  by (simp add: kept_files_def many_listed many_diff)

text \<open>
  C1. When \<open>patch_summary\<close> returns for the default limit, its text is the blocks,
  joined by line breaks, of those among the first 10 listed paths whose diff is not
  empty, in the order of the listing: at most 10 blocks. The block of a path is the
  heading with the path, the opening fence, the body and the closing fence, where the
  body is the first 1500 code points of the diff: at most 1500 characters, counted
  as code points.
\<close>

theorem patch_summary_bounded:
  assumes "patch_summary e base head 10 s = Inr (txt, s')"
  shows "txt = join [10] (map (\<lambda>f. patch_block f (diff_text e base head f))
                  (kept_files e base head)) \<and>
    kept_files e base head =
      filter (\<lambda>f. diff_text e base head f \<noteq> []) (take 10 (listed_files e base head)) \<and>
    length (kept_files e base head) \<le> 10 \<and>
    (\<forall>f\<in>set (kept_files e base head). \<exists>body.
       patch_block f (diff_text e base head f) =
         [10] @ asc ''### '' @ f @ [10] @ [96, 96, 96] @ asc ''diff'' @ [10] @ body @
         [10] @ [96, 96, 96] \<and>
       body = take 1500 (diff_text e base head f) \<and> length body \<le> 1500)"
proof -
  have "length (filter (\<lambda>f. diff_text e base head f \<noteq> []) (take 10 (listed_files e base head)))
      \<le> length (take 10 (listed_files e base head))"
    by (rule length_filter_le)
  then have "length (kept_files e base head) \<le> 10" by (simp add: kept_files_def)
  moreover have "txt = join [10] (map (\<lambda>f. patch_block f (diff_text e base head f))
      (kept_files e base head))"
    using patch_summary_Inr [OF assms] by (simp add: summary_of_def)
  ultimately show ?thesis by (simp add: kept_files_def patch_block_def)
qed

theorem patch_summary_bounded_witness:
  "patch_summary many_env (asc ''main'') (asc ''feature-x'') 10 example_state =
     Inr (join [10] (map (\<lambda>f. patch_block f (replicate 2000 43))
            [asc ''a'', asc ''b'', asc ''c'', asc ''d'', asc ''e'', asc ''f'', asc ''g'',
             asc ''h'', asc ''i'', asc ''j'']),
          example_state\<lparr>calls := names_cmd (asc ''main'') (asc ''feature-x'') #
            map (diff_cmd (asc ''main'') (asc ''feature-x''))
              [asc ''a'', asc ''b'', asc ''c'', asc ''d'', asc ''e'', asc ''f'', asc ''g'',
               asc ''h'', asc ''i'', asc ''j'']\<rparr>) \<and>
   length (listed_files many_env (asc ''main'') (asc ''feature-x'')) = 12 \<and>
   length (kept_files many_env (asc ''main'') (asc ''feature-x'')) = 10 \<and>
   patch_block (asc ''a'') (diff_text many_env (asc ''main'') (asc ''feature-x'') (asc ''a'')) =
     [10] @ asc ''### '' @ asc ''a'' @ [10] @ [96, 96, 96] @ asc ''diff'' @ [10] @
     replicate 1500 43 @ [10] @ [96, 96, 96]"
proof -
  have run: "patch_summary many_env (asc ''main'') (asc ''feature-x'') 10 example_state =
     Inr (join [10] (map (\<lambda>f. patch_block f (replicate 2000 43))
            [asc ''a'', asc ''b'', asc ''c'', asc ''d'', asc ''e'', asc ''f'', asc ''g'',
             asc ''h'', asc ''i'', asc ''j'']),
          example_state\<lparr>calls := names_cmd (asc ''main'') (asc ''feature-x'') #
            map (diff_cmd (asc ''main'') (asc ''feature-x''))
              [asc ''a'', asc ''b'', asc ''c'', asc ''d'', asc ''e'', asc ''f'', asc ''g'',
               asc ''h'', asc ''i'', asc ''j'']\<rparr>)"
    unfolding patch_summary_ok [OF many_completes] many_kept many_listed summary_of_def many_diff
    by (simp add: example_state_def)
  have len: "length (listed_files many_env (asc ''main'') (asc ''feature-x'')) = 12"
    by (simp add: listed_files_def run_text_def many_env_def ok_def)
       (simp add: asc_def strip_def lstrip_def rstrip_def isspace_def splitlines_def
        is_linebreak_def)
  from patch_summary_bounded [OF run] show ?thesis
    by (simp add: run len many_kept many_diff patch_block_def)
qed

text \<open>
  C4. When \<open>patch_summary\<close> returns, a path whose diff text is empty is not among the
  paths that get a block: the summary is the joined blocks of the kept paths, and
  these are the same as if the path had not been among the selected ones.
\<close>

theorem empty_diff_no_block:
  assumes "patch_summary e base head 10 s = Inr (txt, s')"
    and "diff_text e base head f = []"
  shows "f \<notin> set (kept_files e base head) \<and>
    txt = join [10] (map (\<lambda>g. patch_block g (diff_text e base head g))
                  (kept_files e base head)) \<and>
    kept_files e base head =
      filter (\<lambda>g. diff_text e base head g \<noteq> [])
        (removeAll f (take 10 (listed_files e base head)))"
proof -
  have "filter (\<lambda>g. diff_text e base head g \<noteq> []) (removeAll f xs) =
      filter (\<lambda>g. diff_text e base head g \<noteq> []) xs" for xs
    using assms(2) by (induction xs) auto
  moreover have "txt = join [10] (map (\<lambda>f. patch_block f (diff_text e base head f))
      (kept_files e base head))"
    using patch_summary_Inr [OF assms(1)] by (simp add: summary_of_def)
  ultimately show ?thesis using assms(2) by (simp add: kept_files_def)
qed

lemma listing_completes: "\<forall>cmd. \<exists>cp. proc listing_env cmd = Inr cp"
  by (simp add: listing_env_def example_proc_def ok_def)

lemma listing_listed:
  "listed_files listing_env (asc ''main'') (asc ''feature-x'') = [asc ''a.py'', asc ''b.py'']"
  by (simp add: listed_files_def run_text_def listing_env_def ok_def names_cmd_def
      example_range)
     (simp add: asc_def strip_def lstrip_def rstrip_def isspace_def splitlines_def
      is_linebreak_def)

lemma listing_diff_a:
  "diff_text listing_env (asc ''main'') (asc ''feature-x'') (asc ''a.py'') = strip example_diff"
  by (simp add: diff_text_def run_text_def listing_env_def example_proc_def ok_def
      diff_cmd_def example_range asc_eq_iff)

lemma listing_diff_b:
  "diff_text listing_env (asc ''main'') (asc ''feature-x'') (asc ''b.py'') = []"
  by (simp add: diff_text_def run_text_def listing_env_def ok_def
      diff_cmd_def example_range asc_eq_iff strip_def lstrip_def rstrip_def)

theorem empty_diff_no_block_witness:
  "patch_summary listing_env (asc ''main'') (asc ''feature-x'') 10 example_state =
     Inr (patch_block (asc ''a.py'') (strip example_diff),
          example_state\<lparr>calls :=
            [names_cmd (asc ''main'') (asc ''feature-x''),
             diff_cmd (asc ''main'') (asc ''feature-x'') (asc ''a.py''),
             diff_cmd (asc ''main'') (asc ''feature-x'') (asc ''b.py'')]\<rparr>) \<and>
   diff_text listing_env (asc ''main'') (asc ''feature-x'') (asc ''b.py'') = [] \<and>
   asc ''b.py'' \<in> set (listed_files listing_env (asc ''main'') (asc ''feature-x'')) \<and>
   asc ''b.py'' \<notin> set (kept_files listing_env (asc ''main'') (asc ''feature-x'')) \<and>
   kept_files listing_env (asc ''main'') (asc ''feature-x'') = [asc ''a.py'']"
proof -
  have kept: "kept_files listing_env (asc ''main'') (asc ''feature-x'') = [asc ''a.py'']"
    by (simp add: kept_files_def listing_listed listing_diff_a listing_diff_b
        strip_example_diff)
  have run: "patch_summary listing_env (asc ''main'') (asc ''feature-x'') 10 example_state =
     Inr (patch_block (asc ''a.py'') (strip example_diff),
          example_state\<lparr>calls :=
            [names_cmd (asc ''main'') (asc ''feature-x''),
             diff_cmd (asc ''main'') (asc ''feature-x'') (asc ''a.py''),
             diff_cmd (asc ''main'') (asc ''feature-x'') (asc ''b.py'')]\<rparr>)"
    unfolding patch_summary_ok [OF listing_completes] kept listing_listed summary_of_def
    by (simp add: example_state_def listing_diff_a)
  from empty_diff_no_block [OF run listing_diff_b]
  have "asc ''b.py'' \<notin> set (kept_files listing_env (asc ''main'') (asc ''feature-x''))"
    by (rule conjunct1)
  moreover have "asc ''b.py'' \<in> set (listed_files listing_env (asc ''main'') (asc ''feature-x''))"
    by (simp add: listing_listed)
  ultimately show ?thesis using run listing_diff_b kept by (simp only: simp_thms)
qed

subsection \<open>C5: the template loader\<close>

lemma sublist_here: "sublist t (t @ b)"
  by (rule sublist_append_rightI)

lemma sublist_skip: "sublist t b \<Longrightarrow> sublist t (a @ b)"
  unfolding sublist_def by (metis append_assoc)

lemma template_in_prompt: "sublist t (prompt_text t n h b c f p)"
  unfolding prompt_text_eq prompt_body_def
  by (rule sublist_here | rule sublist_skip)+

text \<open>
  C5. \<open>read_template\<close> looks at two fixed relative paths in a fixed order. It returns
  the text of the first path when that is a file, the text of the second when the
  first does not exist and the second is a file, and the fallback (two lines of text,
  an empty line between them) when neither exists. Whenever the prompt is assembled,
  the text that \<open>read_template\<close> returned is a contiguous part of it.
\<close>

theorem read_template_first_existing:
  "template_paths = [asc ''.pull_request_template.md'', asc ''.github/pull_request_template.md''] \<and>
   (files s (asc ''.pull_request_template.md'') = Some (File t) \<longrightarrow> read_template s = Inr t) \<and>
   (files s (asc ''.pull_request_template.md'') = None \<and>
    files s (asc ''.github/pull_request_template.md'') = Some (File t) \<longrightarrow>
      read_template s = Inr t) \<and>
   (files s (asc ''.pull_request_template.md'') = None \<and>
    files s (asc ''.github/pull_request_template.md'') = None \<longrightarrow>
      read_template s = Inr fallback_template) \<and>
   fallback_template = asc ''# Problema'' @ [10, 10] @ asc ''## Solu'' @ [231, 227] @ asc ''o'' @ [10] \<and>
   (assemble_prompt e argv s = Inr (prompt, s') \<longrightarrow>
      (\<exists>t'. read_template s = Inr t' \<and> sublist t' prompt))"
proof -
  have "\<exists>t'. read_template s = Inr t' \<and> sublist t' prompt"
    if "assemble_prompt e argv s = Inr (prompt, s')"
  proof -
    from assemble_prompt_Inr(1) [OF that refl refl] obtain t' where
      "read_template s = Inr t'"
      "prompt = prompt_text t' (cwd_name e) (run_text e branch_cmd)
         (if length argv > 1 then argv ! 1 else asc ''main'')
         (run_text e (log_cmd (if length argv > 1 then argv ! 1 else asc ''main'')
            (run_text e branch_cmd)))
         (run_text e (status_cmd (if length argv > 1 then argv ! 1 else asc ''main'')
            (run_text e branch_cmd)))
         (summary_of e (if length argv > 1 then argv ! 1 else asc ''main'')
            (run_text e branch_cmd)
            (kept_files e (if length argv > 1 then argv ! 1 else asc ''main'')
               (run_text e branch_cmd)))"
      by blast
    then show ?thesis using template_in_prompt by blast
  qed
  then show ?thesis
    by (simp add: read_template_def template_paths_def path_exists_def read_text_def
        fallback_template_def)
qed

theorem read_template_first_existing_witness:
  "files example_state (asc ''.pull_request_template.md'') = Some (File example_template) \<and>
   read_template example_state = Inr example_template \<and>
   files \<lparr>files = [asc ''.github/pull_request_template.md'' \<mapsto> File (asc ''## Why'' @ [10])],
          calls = [], console = []\<rparr> (asc ''.pull_request_template.md'') = None \<and>
   read_template
     \<lparr>files = [asc ''.github/pull_request_template.md'' \<mapsto> File (asc ''## Why'' @ [10])],
      calls = [], console = []\<rparr> = Inr (asc ''## Why'' @ [10]) \<and>
   read_template \<lparr>files = Map.empty, calls = [], console = []\<rparr> = Inr fallback_template \<and>
   assemble_prompt example_env example_argv example_state =
     Inr (example_prompt, example_state\<lparr>calls := example_calls\<rparr>) \<and>
   sublist example_template example_prompt"
proof -
  note w1 = read_template_first_existing [of example_state example_template example_env
      example_argv example_prompt "example_state\<lparr>calls := example_calls\<rparr>"]
  note w2 = read_template_first_existing
      [of "\<lparr>files = [asc ''.github/pull_request_template.md'' \<mapsto> File (asc ''## Why'' @ [10])],
           calls = [], console = []\<rparr>" "asc ''## Why'' @ [10]"]
  note w3 = read_template_first_existing [of "\<lparr>files = Map.empty, calls = [], console = []\<rparr>"]
  have f1: "files example_state (asc ''.pull_request_template.md'') = Some (File example_template)"
    by (simp add: example_state_def asc_eq_iff)
  have f2: "files \<lparr>files = [asc ''.github/pull_request_template.md'' \<mapsto> File (asc ''## Why'' @ [10])],
          calls = [], console = []\<rparr> (asc ''.pull_request_template.md'') = None"
    by (simp add: asc_eq_iff)
  have r1: "read_template example_state = Inr example_template"
    using w1 f1 by blast
  then have "sublist example_template example_prompt"
    using w1 example_assemble by auto
  moreover have "read_template
     \<lparr>files = [asc ''.github/pull_request_template.md'' \<mapsto> File (asc ''## Why'' @ [10])],
      calls = [], console = []\<rparr> = Inr (asc ''## Why'' @ [10])"
    using w2 f2 by simp
  moreover have "read_template \<lparr>files = Map.empty, calls = [], console = []\<rparr> =
      Inr fallback_template"
    using w3 by simp
  ultimately show ?thesis using f1 f2 r1 example_assemble by blast
qed

subsection \<open>C6: the commit list\<close>

lemma bullet_lines:
  assumes "\<forall>sub\<in>set subs. \<forall>c\<in>set sub. \<not> is_linebreak c"
  shows "splitlines (git_log_stdout subs) = map (\<lambda>sub. asc ''- '' @ sub) subs"
  unfolding git_log_stdout_def
proof (rule splitlines_join)
  have "\<not> is_linebreak 45" "\<not> is_linebreak 32" by (simp_all add: is_linebreak_def)
  then show "\<forall>l\<in>set (map (\<lambda>sub. asc ''- '' @ sub) subs).
      l \<noteq> [] \<and> (\<forall>c\<in>set l. \<not> is_linebreak c)"
    using assms by (auto simp: asc_def)
qed

lemma strip_git_log:
  assumes "subs = [] \<or> (last subs \<noteq> [] \<and> \<not> isspace (last (last subs)))"
  shows "strip (git_log_stdout subs) = git_log_stdout subs"
proof (cases "subs = []")
  case True
  then show ?thesis
    by (simp add: git_log_stdout_def strip_def lstrip_def rstrip_def)
next
  case False
  let ?ls = "map (\<lambda>sub. asc ''- '' @ sub) subs"
  from False assms have l: "last subs \<noteq> []" "\<not> isspace (last (last subs))" by simp_all
  from False have ne: "?ls \<noteq> []" by simp
  have hd_ls: "hd ?ls = asc ''- '' @ hd subs" using False by (simp add: hd_map)
  have last_ls: "last ?ls = asc ''- '' @ last subs" using False by (simp add: last_map)
  have hne: "hd ?ls \<noteq> []" unfolding hd_ls by (simp add: asc_def)
  have hh: "hd (hd ?ls) = 45" unfolding hd_ls by (simp add: asc_def)
  have lne: "last ?ls \<noteq> []" unfolding last_ls by (simp add: asc_def)
  have ll: "last (last ?ls) = last (last subs)" unfolding last_ls using l(1) by simp
  have h: "hd (join [10] ?ls) = 45"
    using join_hd [OF ne hne, of "[10]"] hh by simp
  have "join [10] ?ls \<noteq> []" "last (join [10] ?ls) = last (last subs)"
    using join_last [OF ne lne, of "[10]"] ll by simp_all
  then show ?thesis
    unfolding git_log_stdout_def using h l(2) by (intro strip_id) (simp_all add: isspace_def)
qed

text \<open>
  C6, as the code has it. Let the tool report the commits of the range by printing,
  in its own order, one line \<open>- subject\<close> per commit, where no subject holds a line
  boundary and the last subject is not empty and does not end in white space. Then
  \<open>commits\<close> returns that text: one line per reported commit, each a hyphen, a blank
  and the subject, in the order of the tool. Nothing removes duplicates: the lines
  are pairwise different exactly when the subjects are.
\<close>

theorem commits_one_line_per_commit:
  assumes "proc e (log_cmd base head) = Inr cp"
    and "stdout cp = git_log_stdout subs"
    and "\<forall>sub\<in>set subs. \<forall>c\<in>set sub. \<not> is_linebreak c"
    and "subs = [] \<or> (last subs \<noteq> [] \<and> \<not> isspace (last (last subs)))"
  shows "commits e base head s =
      Inr (git_log_stdout subs, s\<lparr>calls := calls s @ [log_cmd base head]\<rparr>) \<and>
    splitlines (git_log_stdout subs) = map (\<lambda>sub. asc ''- '' @ sub) subs \<and>
    (distinct (splitlines (git_log_stdout subs)) \<longleftrightarrow> distinct subs)"
proof -
  have "run_text e (log_cmd base head) = git_log_stdout subs"
    using assms(1,2) strip_git_log [OF assms(4)] by (simp add: run_text_def)
  then have "commits e base head s =
      Inr (git_log_stdout subs, s\<lparr>calls := calls s @ [log_cmd base head]\<rparr>)"
    using run_ok [OF assms(1), of s] by (simp add: commits_def log_cmd_def)
  moreover note lines = bullet_lines [OF assms(3)]
  moreover have "distinct (map (\<lambda>sub. asc ''- '' @ sub) subs) \<longleftrightarrow> distinct subs"
    by (simp add: distinct_map inj_on_def)
  ultimately show ?thesis by simp
qed

lemma example_log_proc:
  "proc example_env (log_cmd (asc ''main'') (asc ''feature-x'')) =
     Inr \<lparr>returncode = 0, stdout = git_log_stdout [asc ''Fix bug'', asc ''Add test''],
          stderr = []\<rparr>"
  by (simp add: example_env_def example_proc_def ok_def log_cmd_def example_range
      git_log_stdout_def)
     (simp add: asc_def)

theorem commits_one_line_per_commit_witness:
  "proc example_env (log_cmd (asc ''main'') (asc ''feature-x'')) =
     Inr \<lparr>returncode = 0, stdout = git_log_stdout [asc ''Fix bug'', asc ''Add test''],
          stderr = []\<rparr> \<and>
   commits example_env (asc ''main'') (asc ''feature-x'') example_state =
     Inr (asc ''- Fix bug'' @ [10] @ asc ''- Add test'',
          example_state\<lparr>calls := [log_cmd (asc ''main'') (asc ''feature-x'')]\<rparr>) \<and>
   splitlines (asc ''- Fix bug'' @ [10] @ asc ''- Add test'') =
     [asc ''- Fix bug'', asc ''- Add test''] \<and>
   distinct (splitlines (asc ''- Fix bug'' @ [10] @ asc ''- Add test''))"
proof -
  have out: "git_log_stdout [asc ''Fix bug'', asc ''Add test''] =
      asc ''- Fix bug'' @ [10] @ asc ''- Add test''"
    by (simp add: git_log_stdout_def asc_def)
  have bullets: "asc ''- '' @ asc ''Fix bug'' = asc ''- Fix bug''"
    "asc ''- '' @ asc ''Add test'' = asc ''- Add test''"
    by (simp_all add: asc_def)
  have plain: "\<forall>sub\<in>set [asc ''Fix bug'', asc ''Add test'']. \<forall>c\<in>set sub. \<not> is_linebreak c"
    by (simp add: asc_def is_linebreak_def)
  have tail: "[asc ''Fix bug'', asc ''Add test''] = [] \<or>
      (last [asc ''Fix bug'', asc ''Add test''] \<noteq> [] \<and>
       \<not> isspace (last (last [asc ''Fix bug'', asc ''Add test''])))"
    by (simp add: asc_def isspace_def)
  have "distinct [asc ''Fix bug'', asc ''Add test'']" by (simp add: asc_eq_iff)
  with commits_one_line_per_commit [OF example_log_proc _ plain tail, of example_state]
  show ?thesis
    by (simp add: example_log_proc out bullets example_state_def asc_eq_iff)
qed

text \<open>
  C6 as stated fails: with two commits of the subject \<open>wip\<close> in the range the commit
  list has the line \<open>- wip\<close> twice.
\<close>

theorem commits_duplicate_lines_counterexample:
  "proc wip_env (log_cmd (asc ''main'') (asc ''feature-x'')) =
     Inr \<lparr>returncode = 0, stdout = git_log_stdout [asc ''wip'', asc ''wip''], stderr = []\<rparr> \<and>
   commits wip_env (asc ''main'') (asc ''feature-x'') example_state =
     Inr (asc ''- wip'' @ [10] @ asc ''- wip'',
          example_state\<lparr>calls := [log_cmd (asc ''main'') (asc ''feature-x'')]\<rparr>) \<and>
   splitlines (asc ''- wip'' @ [10] @ asc ''- wip'') = [asc ''- wip'', asc ''- wip''] \<and>
   \<not> distinct (splitlines (asc ''- wip'' @ [10] @ asc ''- wip''))"
proof -
  have p: "proc wip_env (log_cmd (asc ''main'') (asc ''feature-x'')) =
     Inr \<lparr>returncode = 0, stdout = git_log_stdout [asc ''wip'', asc ''wip''], stderr = []\<rparr>"
    by (simp add: wip_env_def ok_def log_cmd_def example_range)
  have out: "strip (git_log_stdout [asc ''wip'', asc ''wip'']) = asc ''- wip'' @ [10] @ asc ''- wip''"
    by (simp add: git_log_stdout_def asc_def strip_def lstrip_def rstrip_def isspace_def)
  have l: "splitlines (asc ''- wip'' @ [10] @ asc ''- wip'') = [asc ''- wip'', asc ''- wip'']"
    by (simp add: splitlines_def asc_def is_linebreak_def)
  have "commits wip_env (asc ''main'') (asc ''feature-x'') example_state =
     Inr (asc ''- wip'' @ [10] @ asc ''- wip'',
          example_state\<lparr>calls := [log_cmd (asc ''main'') (asc ''feature-x'')]\<rparr>)"
    using p out
    by (simp add: commits_def log_cmd_def run_def example_state_def)
  then show ?thesis using p l by simp
qed

subsection \<open>C7 and C10: the base reference\<close>

text \<open>
  C7. When the program is started without an argument (\<open>sys.argv\<close> holds the script
  alone, or nothing) and the prompt is assembled, every command after the first one
  names the range from \<open>main\<close> to the current branch: the commands executed are the
  branch query, the log, the status listing and the name listing for \<open>main..head\<close>,
  and one diff of \<open>main..head\<close> for each of the first 10 listed paths. The prompt is
  the one that the explicit argument \<open>main\<close> gives.
\<close>

theorem default_base_is_main:
  assumes "length argv \<le> 1"
    and "assemble_prompt e argv s = Inr (prompt, s')"
  shows "calls s' = calls s @
      [branch_cmd,
       log_cmd (asc ''main'') (run_text e branch_cmd),
       status_cmd (asc ''main'') (run_text e branch_cmd),
       names_cmd (asc ''main'') (run_text e branch_cmd)] @
      map (diff_cmd (asc ''main'') (run_text e branch_cmd))
        (take 10 (listed_files e (asc ''main'') (run_text e branch_cmd))) \<and>
    assemble_prompt e [script, asc ''main''] s = Inr (prompt, s')"
proof -
  have base: "asc ''main'' = (if length argv > 1 then argv ! 1 else asc ''main'')"
    using assms(1) by simp
  from assemble_prompt_Inr(2) [OF assms(2) base refl]
  have "calls s' = calls s @
      [branch_cmd,
       log_cmd (asc ''main'') (run_text e branch_cmd),
       status_cmd (asc ''main'') (run_text e branch_cmd),
       names_cmd (asc ''main'') (run_text e branch_cmd)] @
      map (diff_cmd (asc ''main'') (run_text e branch_cmd))
        (take 10 (listed_files e (asc ''main'') (run_text e branch_cmd)))"
    by simp
  moreover have "assemble_prompt e [script, asc ''main''] s = assemble_prompt e argv s"
    using assms(1) by (simp add: assemble_prompt_def)
  ultimately show ?thesis using assms(2) by simp
qed

theorem default_base_is_main_witness:
  "length example_argv \<le> 1 \<and>
   assemble_prompt example_env example_argv example_state =
     Inr (example_prompt, example_state\<lparr>calls := example_calls\<rparr>) \<and>
   example_calls =
     [branch_cmd,
      log_cmd (asc ''main'') (asc ''feature-x''),
      status_cmd (asc ''main'') (asc ''feature-x''),
      names_cmd (asc ''main'') (asc ''feature-x''),
      diff_cmd (asc ''main'') (asc ''feature-x'') (asc ''a.py'')] \<and>
   assemble_prompt example_env [asc ''scripts/generate_pr.py'', asc ''main''] example_state =
     Inr (example_prompt, example_state\<lparr>calls := example_calls\<rparr>)"
proof -
  have len: "length example_argv \<le> 1" by (simp add: example_argv_def)
  have none: "calls example_state = []" by (simp add: example_state_def)
  from default_base_is_main [OF len example_assemble, of "asc ''scripts/generate_pr.py''"]
  show ?thesis
    using len by (simp add: example_assemble example_head example_listed none)
qed

text \<open>
  C10. \<open>main\<close> reads \<open>sys.argv\<close> at index 1 only: two invocations in the same
  surroundings whose first arguments agree assemble the same prompt and end in the
  same state, whatever the further arguments (and the script name) are.
\<close>

theorem further_arguments_ignored:
  "assemble_prompt e (script # base # rest) s = assemble_prompt e (script' # base # rest') s \<and>
   main e (script # base # rest) s = main e (script' # base # rest') s"
  by (simp add: main_def assemble_prompt_def)

subsection \<open>C8 and C9: the output file\<close>

lemma main_Inr_iff:
  "main e argv s = Inr s' \<longleftrightarrow>
     (\<exists>prompt s1. assemble_prompt e argv s = Inr (prompt, s1) \<and>
        files s1 output_path \<noteq> Some Directory \<and>
        write_fault e output_path = None \<and>
        utf8_encodable prompt \<and>
        print_fault e ([9989] @ asc '' Prompt salvo em pr_prompt.txt'') = None \<and>
        s' = s1\<lparr>files := (files s1)(output_path \<mapsto> File prompt),
                console := console s1 @ [[9989] @ asc '' Prompt salvo em pr_prompt.txt'']\<rparr>)"
  by (auto simp: main_def write_text_def split: sum.splits option.splits if_splits)

lemma assemble_prompt_files:
  assumes "assemble_prompt e argv s = Inr (prompt, s1)"
  shows "files s1 = files s"
  using assemble_prompt_Inr(2) [OF assms refl refl] by simp

text \<open>
  What a run that ends in an error leaves behind: the file system as it was (the
  error came before the file was open), the output file empty (the prompt did not
  encode), or the prompt written (the error came at \<open>print\<close>).
\<close>

lemma main_Inl_files:
  assumes "main e argv s = Inl (x, fs)"
  shows "fs = files s \<or> fs = (files s)(output_path \<mapsto> File []) \<or>
    (\<exists>prompt s1. assemble_prompt e argv s = Inr (prompt, s1) \<and>
       fs = (files s)(output_path \<mapsto> File prompt))"
proof (cases "assemble_prompt e argv s")
  case (Inl y)
  with assms show ?thesis by (simp add: main_def)
next
  case (Inr r)
  obtain prompt s1 where r: "r = (prompt, s1)" by (cases r)
  have "files s1 = files s" using Inr r assemble_prompt_files by simp
  with assms Inr r show ?thesis
    by (auto simp: main_def write_text_def split: sum.splits option.splits if_splits)
qed

lemma run_files:
  "run e cmd (s\<lparr>files := G\<rparr>) =
     (case run e cmd s of Inl x \<Rightarrow> Inl x | Inr (t, s1) \<Rightarrow> Inr (t, s1\<lparr>files := G\<rparr>))"
  by (simp add: run_def split: sum.splits)

lemma patch_loop_files:
  "patch_loop e base head fs out (s\<lparr>files := G\<rparr>) =
     (case patch_loop e base head fs out s of
        Inl x \<Rightarrow> Inl x
      | Inr (r, s1) \<Rightarrow> Inr (r, s1\<lparr>files := G\<rparr>))"
  by (induction fs arbitrary: out s) (simp_all add: run_files split: sum.splits)

lemma patch_summary_files:
  "patch_summary e base head n (s\<lparr>files := G\<rparr>) =
     (case patch_summary e base head n s of
        Inl x \<Rightarrow> Inl x
      | Inr (r, s1) \<Rightarrow> Inr (r, s1\<lparr>files := G\<rparr>))"
  by (simp add: patch_summary_def run_files patch_loop_files split: sum.splits)

lemma assemble_prompt_output:
  "assemble_prompt e argv (s\<lparr>files := (files s)(output_path := n)\<rparr>) =
     (case assemble_prompt e argv s of
        Inl x \<Rightarrow> Inl x
      | Inr (p, s1) \<Rightarrow> Inr (p, s1\<lparr>files := (files s)(output_path := n)\<rparr>))"
proof -
  define base where "base = (if 1 < length argv then argv ! 1 else asc ''main'')"
  have rt: "read_template (s\<lparr>calls := cs, files := (files s)(output_path := n)\<rparr>) =
      read_template (s\<lparr>calls := cs\<rparr>)" for cs
    by (simp add: read_template_def template_paths_def path_exists_def read_text_def
        output_path_def asc_eq_iff)
  show ?thesis
    unfolding assemble_prompt_def current_branch_def commits_def changed_files_def Let_def
      base_def [symmetric]
    by (auto simp: run_files patch_summary_files rt split: sum.splits
        dest!: run_Inr patch_summary_Inr)
qed

lemma main_output_prior:
  assumes "main e argv (s\<lparr>files := (files s)(output_path := prior)\<rparr>) = Inr s'"
    and "prior' \<noteq> Some Directory"
  shows "main e argv (s\<lparr>files := (files s)(output_path := prior')\<rparr>) = Inr s'"
proof -
  let ?msg = "[9989] @ asc '' Prompt salvo em pr_prompt.txt''"
  from assms(1) obtain prompt s1 where
    a: "assemble_prompt e argv (s\<lparr>files := (files s)(output_path := prior)\<rparr>) =
          Inr (prompt, s1)" and
    ok: "write_fault e output_path = None" "utf8_encodable prompt" "print_fault e ?msg = None" and
    s': "s' = s1\<lparr>files := (files s1)(output_path \<mapsto> File prompt),
                console := console s1 @ [?msg]\<rparr>"
    unfolding main_Inr_iff by blast
  from a obtain s0 where
    a0: "assemble_prompt e argv s = Inr (prompt, s0)" and
    s1: "s1 = s0\<lparr>files := (files s)(output_path := prior)\<rparr>"
    unfolding assemble_prompt_output by (auto split: sum.splits)
  have a': "assemble_prompt e argv (s\<lparr>files := (files s)(output_path := prior')\<rparr>) =
      Inr (prompt, s0\<lparr>files := (files s)(output_path := prior')\<rparr>)"
    unfolding assemble_prompt_output by (simp add: a0)
  show ?thesis
    unfolding main_Inr_iff a' using ok assms(2) by (simp add: s' s1)
qed

text \<open>
  C8. When a run returns, the file system afterwards is the one before with the
  output path holding exactly the prompt that this run assembled; no other path
  changes. What stood at the output path before has no part in it: started with
  any other text in the output file, or without the file, the run returns and ends in
  the same state.
\<close>

theorem main_overwrites_output:
  "(main e argv s = Inr s' \<longrightarrow>
      (\<exists>prompt s1. assemble_prompt e argv s = Inr (prompt, s1) \<and>
         files s' = (files s)(output_path \<mapsto> File prompt))) \<and>
   (main e argv (s\<lparr>files := (files s)(output_path := prior)\<rparr>) = Inr s' \<longrightarrow>
      main e argv (s\<lparr>files := (files s)(output_path \<mapsto> File old')\<rparr>) = Inr s' \<and>
      main e argv (s\<lparr>files := (files s)(output_path := None)\<rparr>) = Inr s')"
proof -
  have "\<exists>prompt s1. assemble_prompt e argv s = Inr (prompt, s1) \<and>
      files s' = (files s)(output_path \<mapsto> File prompt)"
    if "main e argv s = Inr s'"
  proof -
    from that obtain prompt s1 where
      a: "assemble_prompt e argv s = Inr (prompt, s1)" and
      s': "s' = s1\<lparr>files := (files s1)(output_path \<mapsto> File prompt),
            console := console s1 @ [[9989] @ asc '' Prompt salvo em pr_prompt.txt'']\<rparr>"
      unfolding main_Inr_iff by blast
    from a have "files s1 = files s" by (rule assemble_prompt_files)
    with a s' show ?thesis by simp
  qed
  moreover have "main e argv (s\<lparr>files := (files s)(output_path \<mapsto> File old')\<rparr>) = Inr s'"
    "main e argv (s\<lparr>files := (files s)(output_path := None)\<rparr>) = Inr s'"
    if "main e argv (s\<lparr>files := (files s)(output_path := prior)\<rparr>) = Inr s'"
    using that by (auto intro: main_output_prior)
  ultimately show ?thesis by blast
qed

theorem main_overwrites_output_witness:
  "files example_state output_path = Some (File (asc ''an older prompt'')) \<and>
   main example_env example_argv example_state = Inr example_final \<and>
   assemble_prompt example_env example_argv example_state =
     Inr (example_prompt, example_state\<lparr>calls := example_calls\<rparr>) \<and>
   files example_final = (files example_state)(output_path \<mapsto> File example_prompt) \<and>
   files example_final output_path = Some (File example_prompt) \<and>
   main example_env example_argv
     (example_state\<lparr>files := (files example_state)(output_path := None)\<rparr>) =
     Inr example_final \<and>
   main example_env example_argv
     (example_state\<lparr>files := (files example_state)(output_path \<mapsto> File (asc ''another text''))\<rparr>) =
     Inr example_final \<and>
   main example_env example_argv example_final =
     Inr (example_final\<lparr>calls := example_calls @ example_calls,
            console := [[9989] @ asc '' Prompt salvo em pr_prompt.txt'',
                        [9989] @ asc '' Prompt salvo em pr_prompt.txt'']\<rparr>) \<and>
   files (example_final\<lparr>calls := example_calls @ example_calls,
            console := [[9989] @ asc '' Prompt salvo em pr_prompt.txt'',
                        [9989] @ asc '' Prompt salvo em pr_prompt.txt'']\<rparr>) output_path =
     Some (File example_prompt)"
proof -
  have old: "files example_state output_path = Some (File (asc ''an older prompt''))"
    by (simp add: example_state_def output_path_def)
  have same: "example_state\<lparr>files := (files example_state)
      (output_path := Some (File (asc ''an older prompt'')))\<rparr> = example_state"
    using old by (simp add: fun_upd_idem)
  note w = main_overwrites_output [of example_env example_argv example_state example_final
      "Some (File (asc ''an older prompt''))" "asc ''another text''"]
  from w have f: "files example_final = (files example_state)(output_path \<mapsto> File example_prompt)"
    using example_main example_assemble by simp
  from w have other: "main example_env example_argv
      (example_state\<lparr>files := (files example_state)(output_path := None)\<rparr>) = Inr example_final"
    "main example_env example_argv
      (example_state\<lparr>files := (files example_state)(output_path \<mapsto> File (asc ''another text''))\<rparr>) =
      Inr example_final"
    using example_main same by simp_all
  from f have "files example_final output_path = Some (File example_prompt)" by simp
  with old f other example_main example_assemble example_main_again show ?thesis by simp
qed

text \<open>
  C9. After a run that returns, the output file holds a text that stripping leaves as
  it is: it is not empty, has no white space at either end, and begins with \<open>V\<close>, the
  first character of the instruction text.
\<close>

theorem written_prompt_is_stripped:
  assumes "main e argv s = Inr s'"
  shows "\<exists>p. files s' output_path = Some (File p) \<and> strip p = p \<and> p \<noteq> [] \<and>
    \<not> isspace (hd p) \<and> \<not> isspace (last p) \<and> hd p = of_char CHR ''V''"
proof -
  from assms obtain prompt s1 where
    a: "assemble_prompt e argv s = Inr (prompt, s1)" and
    f: "files s' output_path = Some (File prompt)"
    unfolding main_Inr_iff by auto
  from assemble_prompt_Inr(1) [OF a refl refl] obtain t n h b c fl p where
    "prompt = prompt_text t n h b c fl p" by blast
  then have p: "prompt = prompt_body t n h b c fl p" by (simp add: prompt_text_eq)
  have ne: "prompt \<noteq> []" and h: "hd prompt = 86" and l: "last prompt = 46"
    by (simp_all add: p prompt_body_hd prompt_body_last)
  have sp: "\<not> isspace (hd prompt)" "\<not> isspace (last prompt)"
    by (simp_all add: h l isspace_def)
  from ne sp have "strip prompt = prompt" by (rule strip_id)
  with f ne sp h show ?thesis by simp
qed

theorem written_prompt_is_stripped_witness:
  "main example_env example_argv example_state = Inr example_final \<and>
   files example_final output_path = Some (File example_prompt) \<and>
   strip example_prompt = example_prompt \<and>
   hd example_prompt = of_char CHR ''V'' \<and>
   last example_prompt = of_char CHR ''.''"
proof -
  have f: "files example_final output_path = Some (File example_prompt)"
    by (simp add: example_final_def output_path_def)
  from written_prompt_is_stripped [OF example_main] f
  have "strip example_prompt = example_prompt \<and> hd example_prompt = of_char CHR ''V''"
    by auto
  moreover have "last example_prompt = of_char CHR ''.''"
    by (simp add: example_prompt_def asc_def)
  ultimately show ?thesis using example_main f by simp
qed

end
